theory Spec2Isabelle
  imports Main "HOL-Library.Sublist" "HOL-Library.Char_ord" "HOL-Library.List_Lexorder"
    "HOL-Library.Option_ord"
begin

unbundle bit_operations_syntax

section \<open>Scope\<close>

text \<open>
  A model of the views of \<open>enterprise_data.api.v0\<close> and \<open>enterprise_data.api.v1\<close>: the
  date arithmetic of \<open>subtract_one_month\<close>, the filters that \<open>apply_filters\<close> composes from
  the query parameters, the cache around the enrollment list, the learner listing with
  its annotations, the completed courses, the insights and the not-found check of the
  version 0 views.  A queryset is the list of its rows; an exception is a value of
  \<open>error\<close>; the clock, the tables, the cache and the log are arguments and results.
  Authentication, permissions, ordering, pagination and serializers belong to the
  frameworks and are left out, as is the line that \<open>EnterpriseLearnerViewSet.get_queryset\<close>
  logs at level \<open>INFO\<close>.  Identifiers are compared as the strings the store holds.
\<close>

section \<open>Errors\<close>

text \<open>
  The exceptions that the modelled code can raise, as values.  \<open>NotFound\<close> carries the
  message handed to \<open>rest_framework.exceptions.NotFound\<close>.
\<close>

datatype error =
    OverflowError
  | ValueError
  | ValidationError
  | NotFound string

section \<open>Calendar dates (\<open>datetime.date\<close>)\<close>

text \<open>
  A \<open>datetime.date\<close> is a triple of year, month and day in the proleptic Gregorian calendar,
  with \<open>1 \<le> year \<le> 9999\<close>.  Dates compare as the tuples \<open>(year, month, day)\<close>.
\<close>

record date =
  year :: nat
  month :: nat
  day :: nat

definition MINYEAR :: nat where "MINYEAR = 1"
definition MAXYEAR :: nat where "MAXYEAR = 9999"

definition is_leap :: "nat \<Rightarrow> bool" where
  "is_leap y = (y mod 4 = 0 \<and> (y mod 100 \<noteq> 0 \<or> y mod 400 = 0))"

definition days_in_month :: "nat \<Rightarrow> nat \<Rightarrow> nat" where
  "days_in_month y m =
     (if m = 2 then (if is_leap y then 29 else 28)
      else if m = 4 \<or> m = 6 \<or> m = 9 \<or> m = 11 then 30 else 31)"

definition valid_date :: "date \<Rightarrow> bool" where
  "valid_date d =
     (MINYEAR \<le> year d \<and> year d \<le> MAXYEAR \<and> 1 \<le> month d \<and> month d \<le> 12 \<and>
      1 \<le> day d \<and> day d \<le> days_in_month (year d) (month d))"

definition date_lt :: "date \<Rightarrow> date \<Rightarrow> bool" where
  "date_lt a b =
     (year a < year b \<or> (year a = year b \<and>
        (month a < month b \<or> (month a = month b \<and> day a < day b))))"

definition date_le :: "date \<Rightarrow> date \<Rightarrow> bool" where
  "date_le a b = (date_lt a b \<or> (year a = year b \<and> month a = month b \<and> day a = day b))"

text \<open>
  \<open>d - timedelta(days=1)\<close>: the day before \<open>d\<close>; \<open>OverflowError\<close> when \<open>d\<close> is
  \<open>date.min\<close> (0001-01-01), which has no predecessor in the type.
\<close>

definition sub_one_day :: "date \<Rightarrow> error + date" where
  "sub_one_day d =
     (if 1 < day d then Inr (d\<lparr>day := day d - 1\<rparr>)
      else if 1 < month d then
        Inr (d\<lparr>month := month d - 1, day := days_in_month (year d) (month d - 1)\<rparr>)
      else if MINYEAR < year d then
        Inr (d\<lparr>year := year d - 1, month := 12, day := 31\<rparr>)
      else Inl OverflowError)"

text \<open>\<open>d - timedelta(days=n)\<close>, as \<open>n\<close> single days.\<close>

fun sub_days :: "nat \<Rightarrow> date \<Rightarrow> error + date" where
  "sub_days 0 d = Inr d"
| "sub_days (Suc n) d = (case sub_one_day d of Inl e \<Rightarrow> Inl e | Inr d' \<Rightarrow> sub_days n d')"

text \<open>
  Python computes \<open>d - timedelta(days=n)\<close> on the ordinal of the date, the number of days
  from 0001-01-01 (which has the ordinal 1), and raises \<open>OverflowError\<close> if the ordinal
  of the result is not positive.  \<open>toordinal\<close> is that ordinal, with the days before a year
  and before a month of a year as the library counts them.  \<open>sub_one_day_toordinal\<close>,
  \<open>sub_one_day_raises\<close> and \<open>toordinal_mono\<close> below show that \<open>sub_one_day\<close> is the
  subtraction of one from the ordinal.
\<close>

definition days_before_year :: "nat \<Rightarrow> nat" where
  "days_before_year y = (let p = y - 1 in p * 365 + p div 4 - p div 100 + p div 400)"

definition days_before_month :: "nat \<Rightarrow> nat \<Rightarrow> nat" where
  "days_before_month y m = sum_list (map (days_in_month y) [1..<m])"

definition toordinal :: "date \<Rightarrow> nat" where
  "toordinal d = days_before_year (year d) + days_before_month (year d) (month d) + day d"

section \<open>\<open>subtract_one_month\<close> (api/v1/views.py and api/v0/views.py)\<close>

text \<open>
  The loop of \<open>subtract_one_month\<close>: while the candidate is in the month of the original date,
  or its day of the month is greater, step one day back.
\<close>

function walk_back :: "date \<Rightarrow> date \<Rightarrow> error + date" where
  "walk_back original_date one_month_earlier =
     (if month one_month_earlier = month original_date
         \<or> day one_month_earlier > day original_date
      then (case sub_one_day one_month_earlier of
              Inl e \<Rightarrow> Inl e
            | Inr d \<Rightarrow> walk_back original_date d)
      else Inr one_month_earlier)"
  by pat_completeness auto
termination
proof (relation "measures [\<lambda>(o_d, c). year c, \<lambda>(o_d, c). month c, \<lambda>(o_d, c). day c]")
  show "wf (measures [\<lambda>(o_d, c). year c, \<lambda>(o_d, c). month c, \<lambda>(o_d, c). day c])"
    by simp
next
  fix original_date one_month_earlier :: date and d :: date
  assume "sub_one_day one_month_earlier = Inr d"
  then show "((original_date, d), (original_date, one_month_earlier))
      \<in> measures [\<lambda>(o_d, c). year c, \<lambda>(o_d, c). month c, \<lambda>(o_d, c). day c]"
    by (auto simp: sub_one_day_def split: if_splits)
qed

declare walk_back.simps [simp del]

definition subtract_one_month :: "date \<Rightarrow> error + date" where
  "subtract_one_month original_date =
     (case sub_one_day original_date of
        Inl e \<Rightarrow> Inl e
      | Inr one_month_earlier \<Rightarrow> walk_back original_date one_month_earlier)"

section \<open>Python strings and \<open>int(s, 16)\<close>\<close>

text \<open>
  Strings are lists of characters with codes below 256.  \<open>str_replace old new s\<close> is
  \<open>s.replace(old, new)\<close> for a non-empty \<open>old\<close> (the only use in the modelled code):
  occurrences are replaced from the left, without overlap.
\<close>

function str_replace :: "string \<Rightarrow> string \<Rightarrow> string \<Rightarrow> string" where
  "str_replace old new [] = []"
| "str_replace old new (c # cs) =
     (if old \<noteq> [] \<and> prefix old (c # cs)
      then new @ str_replace old new (drop (length old) (c # cs))
      else c # str_replace old new cs)"
  by pat_completeness auto
termination
  by (relation "measure (\<lambda>(old, new, s). length s)") auto

text \<open>\<open>s.strip(chars)\<close>: drops the characters of \<open>chars\<close> from both ends.\<close>

definition str_strip :: "string \<Rightarrow> string \<Rightarrow> string" where
  "str_strip chars s =
     rev (dropWhile (\<lambda>c. c \<in> set chars) (rev (dropWhile (\<lambda>c. c \<in> set chars) s)))"

text \<open>
  The characters \<open>int()\<close> skips around a number: the ASCII white space (tab to carriage
  return, and the space) and the two Latin-1 spaces \<open>0x85\<close> and \<open>0xa0\<close>.
\<close>

definition is_space :: "char \<Rightarrow> bool" where
  "is_space c =
     (let n = (of_char c :: nat)
      in (9 \<le> n \<and> n \<le> 13) \<or> n = 32 \<or> n = 133 \<or> n = 160)"

definition hex_digit_value :: "char \<Rightarrow> nat option" where
  "hex_digit_value c =
     (let n = (of_char c :: nat)
      in if 48 \<le> n \<and> n \<le> 57 then Some (n - 48)
         else if 97 \<le> n \<and> n \<le> 102 then Some (n - 87)
         else if 65 \<le> n \<and> n \<le> 70 then Some (n - 55)
         else None)"

definition is_hex_digit :: "char \<Rightarrow> bool" where
  "is_hex_digit c = (hex_digit_value c \<noteq> None)"

text \<open>
  The digits of a literal, as \<open>int()\<close> accepts them: at least one digit, single
  underscores between digits only.
\<close>

fun digits_well_formed :: "string \<Rightarrow> bool" where
  "digits_well_formed [] = False"
| "digits_well_formed [c] = is_hex_digit c"
| "digits_well_formed (c # d # cs) =
     (if c = CHR ''_'' then False
      else if d = CHR ''_'' then (case cs of [] \<Rightarrow> False | _ \<Rightarrow> digits_well_formed cs)
      else digits_well_formed (d # cs))"

definition hex_value :: "string \<Rightarrow> int" where
  "hex_value ds =
     foldl (\<lambda>acc c. case hex_digit_value c of None \<Rightarrow> acc | Some v \<Rightarrow> acc * 16 + int v) 0 ds"

text \<open>
  \<open>int(s, 16)\<close>: leading white space, an optional sign, an optional \<open>0x\<close> prefix (which
  one underscore may follow), the digits, trailing white space.  \<open>ValueError\<close> otherwise.
\<close>

definition py_int16 :: "string \<Rightarrow> error + int" where
  "py_int16 s =
     (let s1 = dropWhile is_space s;
          negative = (case s1 of c # _ \<Rightarrow> c = CHR ''-'' | [] \<Rightarrow> False);
          s2 = (case s1 of c # r \<Rightarrow> if c = CHR ''+'' \<or> c = CHR ''-'' then r else s1
                | [] \<Rightarrow> s1);
          s3 = (case s2 of
                  a # b # r \<Rightarrow>
                    if a = CHR ''0'' \<and> (b = CHR ''x'' \<or> b = CHR ''X'')
                    then (case r of u # r' \<Rightarrow> if u = CHR ''_'' then r' else r | [] \<Rightarrow> r)
                    else s2
                | _ \<Rightarrow> s2);
          body = takeWhile (\<lambda>c. is_hex_digit c \<or> c = CHR ''_'') s3;
          rest = dropWhile (\<lambda>c. is_hex_digit c \<or> c = CHR ''_'') s3
      in if digits_well_formed body \<and> list_all is_space rest
         then Inr (if negative then - hex_value body else hex_value body)
         else Inl ValueError)"

section \<open>\<open>uuid.UUID\<close>\<close>

text \<open>
  \<open>UUID(hex, version=version)\<close>, as the 128-bit integer the object holds.  The constructor
  removes \<open>urn:\<close>, \<open>uuid:\<close>, surrounding braces and hyphens, wants 32 characters left, reads
  them as a hexadecimal number, and then \<^emph>\<open>sets\<close> the variant bits to RFC 4122 and the
  version nibble to \<open>version\<close>: it does not test them.
\<close>

definition UUID :: "string \<Rightarrow> nat \<Rightarrow> error + int" where
  "UUID hex version =
     (let hex1 = str_replace ''uuid:'' [] (str_replace ''urn:'' [] hex);
          hex2 = str_replace ''-'' [] (str_strip ''{}'' hex1)
      in if length hex2 \<noteq> 32 then Inl ValueError
         else case py_int16 hex2 of
           Inl e \<Rightarrow> Inl e
         | Inr i \<Rightarrow>
             if \<not> (0 \<le> i \<and> i < 2 ^ 128) then Inl ValueError
             else if \<not> (1 \<le> version \<and> version \<le> 5) then Inl ValueError
             else
               let i1 = i AND NOT (push_bit 48 0xc000);
                   i2 = i1 OR push_bit 48 0x8000;
                   i3 = i2 AND NOT (push_bit 64 0xf000);
                   i4 = i3 OR push_bit 76 (int version)
               in Inr i4)"

definition hex_char :: "nat \<Rightarrow> char" where
  "hex_char n = (if n < 10 then char_of (48 + n) else char_of (87 + n))"

text \<open>\<open>'%032x' % i\<close> for \<open>0 \<le> i < 2 ^ 128\<close>: the 32 lower-case hexadecimal digits.\<close>

definition format_032x :: "int \<Rightarrow> string" where
  "format_032x i = map (\<lambda>k. hex_char (nat ((i div 16 ^ k) mod 16))) (rev [0..<32])"

text \<open>\<open>str(u)\<close>: the digits in groups of 8, 4, 4, 4 and 12, with hyphens between.\<close>

definition uuid_str :: "int \<Rightarrow> string" where
  "uuid_str i =
     (let h = format_032x i
      in take 8 h @ ''-'' @ take 4 (drop 8 h) @ ''-'' @ take 4 (drop 12 h) @ ''-''
         @ take 4 (drop 16 h) @ ''-'' @ drop 20 h)"

section \<open>Query parameters (\<open>request.query_params\<close>)\<close>

text \<open>
  A \<open>QueryDict\<close>: the pairs of the query string, in order.  \<open>getlist\<close> gives every value of
  a key, \<open>get\<close> the last one, or \<open>None\<close>.  A Python \<open>if value:\<close> on the result of \<open>get\<close>
  is true for a non-empty string only.
\<close>

type_synonym query_params = "(string \<times> string) list"

definition qp_getlist :: "query_params \<Rightarrow> string \<Rightarrow> string list" where
  "qp_getlist qp k = map snd (filter (\<lambda>kv. fst kv = k) qp)"

definition qp_get :: "query_params \<Rightarrow> string \<Rightarrow> string option" where
  "qp_get qp k = (case qp_getlist qp k of [] \<Rightarrow> None | v # vs \<Rightarrow> Some (last (v # vs)))"

definition truthy :: "string option \<Rightarrow> bool" where
  "truthy p = (case p of None \<Rightarrow> False | Some v \<Rightarrow> v \<noteq> [])"

text \<open>
  \<open>if value: queryset = f(value, queryset)\<close>, for a \<open>value\<close> that \<open>get\<close> returned; and
  the same for an \<open>f\<close> that may raise.
\<close>

definition if_given :: "string option \<Rightarrow> (string \<Rightarrow> 'q \<Rightarrow> 'q) \<Rightarrow> 'q \<Rightarrow> 'q" where
  "if_given p f q = (case p of None \<Rightarrow> q | Some v \<Rightarrow> if v = [] then q else f v q)"

definition if_given_raising ::
  "string option \<Rightarrow> (string \<Rightarrow> 'q \<Rightarrow> error + 'q) \<Rightarrow> 'q \<Rightarrow> error + 'q" where
  "if_given_raising p f q =
     (case p of None \<Rightarrow> Inr q | Some v \<Rightarrow> if v = [] then Inr q else f v q)"

section \<open>Records of the store\<close>

text \<open>
  An instant (\<open>datetime\<close>, \<open>timezone.now()\<close>) is a number of microseconds; a nullable
  column is an \<open>option\<close>.  A comparison with \<open>NULL\<close> selects no row.  The passed date,
  the last activity date and the start and end dates of the course are calendar dates, as
  the data model of the spec has them; \<open>created\<close> is an instant.
\<close>

type_synonym timestamp = int

text \<open>The columns of \<open>EnterpriseLearnerEnrollment\<close> that the views read.\<close>

record enrollment =
  enrollment_id :: nat
  enterprise_customer_uuid :: string
  enterprise_user_id :: nat
  user_email :: "string option"
  course_title :: "string option"
  courserun_key :: "string option"
  is_consent_granted :: bool
  has_passed :: bool
  passed_date :: "date option"
  last_activity_date :: "date option"
  course_start_date :: "date option"
  course_end_date :: "date option"
  offer_id :: "string option"
  budget_id :: "string option"
  course_list_price :: "nat option"
  course_product_line :: "string option"
  is_subsidy :: bool
  created :: "timestamp option"

text \<open>\<open>EnterpriseLearner\<close>; its primary key is \<open>enterprise_user_id\<close>.\<close>

record learner =
  l_enterprise_user_id :: nat
  l_enterprise_customer_uuid :: string
  l_user_email :: "string option"

text \<open>
  The declarations of \<open>enterprise_data.models\<close> are not part of the sources at hand.  What
  the views need of them, beyond the columns above, is how the columns turn the value of
  a lookup into a value of the column (\<open>to_python\<close>).  A date column that is compared
  with an instant compares with the calendar date of the instant in the default time
  zone: \<open>date_to_python\<close>.  For a query-string value, \<open>None\<close> is a value the column
  rejects, which Django reports as a \<open>ValidationError\<close> when the filter is built.
\<close>

record model_fields =
  date_to_python :: "timestamp \<Rightarrow> date"
  start_date_to_python :: "string \<Rightarrow> date option"
  is_subsidy_to_python :: "string \<Rightarrow> bool option"

datatype log_level = INFO | WARNING | ERROR

type_synonym log_entry = "log_level \<times> string"

section \<open>Enrollment filters (api/v1/views.py, \<open>EnterpriseLearnerEnrollmentViewSet\<close>)\<close>

definition timedelta_weeks_1 :: int where
  "timedelta_weeks_1 = 7 * 24 * 3600 * 1000000"

definition lower_char :: "char \<Rightarrow> char" where
  "lower_char c =
     (let n = (of_char c :: nat) in if 65 \<le> n \<and> n \<le> 90 then char_of (n + 32) else c)"

text \<open>The lookup \<open>field__icontains=needle\<close>, on characters below 128.\<close>

definition icontains :: "string option \<Rightarrow> string \<Rightarrow> bool" where
  "icontains field needle =
     (case field of None \<Rightarrow> False
      | Some s \<Rightarrow> sublist (map lower_char needle) (map lower_char s))"

definition filter_by_offer_id :: "enrollment list \<Rightarrow> string \<Rightarrow> enrollment list" where
  "filter_by_offer_id queryset offer_id_param =
     (let offer_id' =
            (case UUID offer_id_param 4 of
               Inr offer_id_uuid_obj \<Rightarrow> str_replace ''-'' [] (uuid_str offer_id_uuid_obj)
             | Inl e \<Rightarrow> offer_id_param)
      in filter (\<lambda>e. offer_id e = Some offer_id') queryset)"

definition filter_active_enrollments ::
  "model_fields \<Rightarrow> timestamp \<Rightarrow> enrollment list \<Rightarrow> enrollment list" where
  "filter_active_enrollments mf now queryset =
     filter (\<lambda>e. has_passed e = False
                \<and> (case course_end_date e of None \<Rightarrow> False
                   | Some d \<Rightarrow> date_le (date_to_python mf now) d)) queryset"


definition filter_active_learners :: "enrollment list \<Rightarrow> date \<Rightarrow> enrollment list" where
  "filter_active_learners queryset activity_date =
     filter (\<lambda>e. case last_activity_date e of None \<Rightarrow> False
                 | Some a \<Rightarrow> date_le activity_date a) queryset"

definition filter_inactive_learners :: "enrollment list \<Rightarrow> date \<Rightarrow> enrollment list" where
  "filter_inactive_learners queryset activity_date =
     filter (\<lambda>e. case last_activity_date e of None \<Rightarrow> False
                 | Some a \<Rightarrow> date_le a activity_date) queryset"



definition filter_past_week_completions ::
  "model_fields \<Rightarrow> timestamp \<Rightarrow> enrollment list \<Rightarrow> enrollment list" where
  "filter_past_week_completions mf now queryset =
     (let date_today = now;
          date_week_before = date_today - timedelta_weeks_1
      in filter (\<lambda>e. has_passed e = True
                   \<and> (case passed_date e of None \<Rightarrow> False
                      | Some d \<Rightarrow> date_le d (date_to_python mf date_today)
                                \<and> date_le (date_to_python mf date_week_before) d)) queryset)"

definition filter_start_date ::
  "model_fields \<Rightarrow> string \<Rightarrow> enrollment list \<Rightarrow> error + enrollment list" where
  "filter_start_date mf search_start_date queryset =
     (case start_date_to_python mf search_start_date of
        None \<Rightarrow> Inl ValidationError
      | Some t \<Rightarrow> Inr (filter (\<lambda>e. course_start_date e = Some t) queryset))"

definition filter_is_subsidy ::
  "model_fields \<Rightarrow> string \<Rightarrow> enrollment list \<Rightarrow> error + enrollment list" where
  "filter_is_subsidy mf is_subsidy_param queryset =
     (case is_subsidy_to_python mf is_subsidy_param of
        None \<Rightarrow> Inl ValidationError
      | Some b \<Rightarrow> Inr (filter (\<lambda>e. is_subsidy e = b) queryset))"

text \<open>
  \<open>apply_filters\<close>, with the clock as arguments: \<open>now\<close> is \<open>timezone.now()\<close>, \<open>today\<close> is
  \<open>date.today()\<close>.  An exception raised on the way (date arithmetic out of range, a value
  a column rejects) is the result.
\<close>

definition apply_filters ::
  "model_fields \<Rightarrow> query_params \<Rightarrow> timestamp \<Rightarrow> date \<Rightarrow> enrollment list
     \<Rightarrow> error + enrollment list" where
  "apply_filters mf query_filters now today queryset =
     (case sub_days 7 today of
        Inl e \<Rightarrow> Inl e
      | Inr past_week_date \<Rightarrow>
     (case subtract_one_month today of
        Inl e \<Rightarrow> Inl e
      | Inr past_month_date \<Rightarrow>
     (let passed_date_param = qp_get query_filters ''passed_date'';
          q1 = (if passed_date_param = Some ''last_week''
                then filter_past_week_completions mf now queryset else queryset);
          learner_activity_param = qp_get query_filters ''learner_activity'';
          q2 = if_given learner_activity_param (\<lambda>v. filter_active_enrollments mf now) q1;
          q3 = (if learner_activity_param = Some ''active_past_week''
                then filter_active_learners q2 past_week_date
                else if learner_activity_param = Some ''inactive_past_week''
                then filter_inactive_learners q2 past_week_date
                else if learner_activity_param = Some ''inactive_past_month''
                then filter_inactive_learners q2 past_month_date
                else q2);
          search_email = qp_get query_filters ''search'';
          q4 = if_given search_email
                 (\<lambda>v. filter (\<lambda>e. icontains (user_email e) v)) q3;
          search_all_param = qp_get query_filters ''search_all'';
          q5 = if_given search_all_param
                 (\<lambda>v. filter (\<lambda>e. icontains (user_email e) v \<or> icontains (course_title e) v))
                 q4;
          search_course = qp_get query_filters ''search_course'';
          q6 = if_given search_course
                 (\<lambda>v. filter (\<lambda>e. icontains (course_title e) v)) q5;
          search_start_date = qp_get query_filters ''search_start_date''
      in case if_given_raising search_start_date (filter_start_date mf) q6 of
           Inl e \<Rightarrow> Inl e
         | Inr q7 \<Rightarrow>
     (let offer_id_param = qp_get query_filters ''offer_id'';
          q8 = if_given offer_id_param (\<lambda>v q. filter_by_offer_id q v) q7;
          budget_id_param = qp_get query_filters ''budget_id'';
          q9 = if_given budget_id_param
                 (\<lambda>v. filter (\<lambda>e. budget_id e = Some v)) q8;
          ignore_null_course_list_price = qp_get query_filters ''ignore_null_course_list_price'';
          q10 = if_given ignore_null_course_list_price
                  (\<lambda>v. filter (\<lambda>e. course_list_price e \<noteq> None)) q9;
          course_product_line_param = qp_get query_filters ''course_product_line'';
          q11 = if_given course_product_line_param
                  (\<lambda>v. filter (\<lambda>e. course_product_line e = Some v)) q10;
          is_subsidy_param = qp_get query_filters ''is_subsidy''
      in if_given_raising is_subsidy_param (filter_is_subsidy mf) q11))))"

section \<open>The cache\<close>

text \<open>
  Modelled from the spec: \<open>get_cache_key\<close> of \<open>enterprise_data.utils\<close>, which is not part of
  the sources at hand.  The spec derives the key deterministically from the resource name
  and the enterprise id, so that different enterprises or resources never share a key; the
  key is the pair of the two keyword arguments of the call.
\<close>

type_synonym cache_key = "string \<times> string"

definition get_cache_key :: "string \<Rightarrow> string \<Rightarrow> cache_key" where
  "get_cache_key resource enterprise_customer = (resource, enterprise_customer)"

text \<open>
  Modelled from the spec: \<open>TieredCache\<close> of \<open>edx_django_utils.cache\<close>, by the contract of
  the spec's cache layer.  An entry is a value with the instant it expires at;
  \<open>get_cached_response\<close> finds an entry that is present and unexpired (\<open>Some\<close> is
  \<open>is_found\<close>, with the value), \<open>set_all_tiers\<close> stores a value under a key until
  \<open>timeout\<close> seconds from now.
\<close>

type_synonym 'v tiered_cache = "cache_key \<Rightarrow> ('v \<times> timestamp) option"

definition get_cached_response :: "'v tiered_cache \<Rightarrow> timestamp \<Rightarrow> cache_key \<Rightarrow> 'v option" where
  "get_cached_response c now k =
     (case c k of
        None \<Rightarrow> None
      | Some (v, expires) \<Rightarrow> if now < expires then Some v else None)"

definition set_all_tiers ::
  "'v tiered_cache \<Rightarrow> timestamp \<Rightarrow> cache_key \<Rightarrow> 'v \<Rightarrow> int \<Rightarrow> 'v tiered_cache" where
  "set_all_tiers c now k v timeout = c(k \<mapsto> (v, now + timeout * 1000000))"

definition DEFAULT_LEARNER_CACHE_TIMEOUT :: int where
  "DEFAULT_LEARNER_CACHE_TIMEOUT = 60 * 10"

section \<open>\<open>EnterpriseLearnerEnrollmentViewSet.get_queryset\<close>\<close>

text \<open>
  What a view holds of its request, what it reads (the clock and the tables), and what it
  changes (the cache and the log).
\<close>

record view =
  swagger_fake_view :: bool
  enterprise_id :: string
  query_params :: query_params
  full_path :: string
  username :: string

record env =
  clock_now :: timestamp
  clock_today :: date
  model :: model_fields
  learner_table :: "learner list"
  enrollment_table :: "enrollment list"

record world =
  cache :: "enrollment list tiered_cache"
  log :: "log_entry list"

definition wrong_enterprise_message :: "string \<Rightarrow> string \<Rightarrow> string \<Rightarrow> string" where
  "wrong_enterprise_message uuid path user =
     ''[Data Overview Failure] Wrong Enterprise UUID. UUID ['' @ uuid @ ''], Endpoint [''
       @ [CHR 0x27] @ path @ [CHR 0x27] @ ''], User: ['' @ user @ '']''"

definition get_queryset :: "view \<Rightarrow> env \<Rightarrow> world \<Rightarrow> (error + enrollment list) \<times> world" where
  "get_queryset self ev w =
     (if swagger_fake_view self then (Inr [], w)
      else
        let enterprise_customer_uuid' = enterprise_id self;
            cache_key = get_cache_key ''enterprise-learner'' enterprise_customer_uuid'
        in case get_cached_response (cache w) (clock_now ev) cache_key of
             Some v \<Rightarrow> (Inr v, w)
           | None \<Rightarrow>
               let enterprise =
                     (filter (\<lambda>l. l_enterprise_customer_uuid l = enterprise_customer_uuid')
                        (learner_table ev) \<noteq> []);
                   w1 = (if \<not> enterprise
                         then w\<lparr>log := log w @
                                [(WARNING, wrong_enterprise_message enterprise_customer_uuid'
                                             (full_path self) (username self))]\<rparr>
                         else w);
                   enrollments =
                     filter (\<lambda>e. enterprise_customer_uuid e = enterprise_customer_uuid')
                       (enrollment_table ev)
               in case apply_filters (model ev) (query_params self) (clock_now ev) (clock_today ev)
                         enrollments of
                    Inl e \<Rightarrow> (Inl e, w1)
                  | Inr enrollments' \<Rightarrow>
                      (Inr enrollments',
                       w1\<lparr>cache := set_all_tiers (cache w1) (clock_now ev) cache_key enrollments'
                                       DEFAULT_LEARNER_CACHE_TIMEOUT\<rparr>))"

text \<open>
  Two expressions of \<open>get_queryset\<close>, named for the statements below: the cache key of the
  view, and the enrollments of its enterprise.
\<close>

definition enterprise_learner_key :: "view \<Rightarrow> cache_key" where
  "enterprise_learner_key self = get_cache_key ''enterprise-learner'' (enterprise_id self)"

definition enterprise_enrollments :: "view \<Rightarrow> env \<Rightarrow> enrollment list" where
  "enterprise_enrollments self ev =
     filter (\<lambda>e. enterprise_customer_uuid e = enterprise_id self) (enrollment_table ev)"

section \<open>\<open>EnterpriseLearnerEnrollmentViewSet.overview\<close>\<close>





section \<open>\<open>EnterpriseLearnerViewSet\<close>\<close>

text \<open>
  The relation \<open>enrollments\<close> of a learner: the enrollments whose \<open>enterprise_user\<close> is the
  learner.  A \<open>filter\<close> on columns of the relation joins it: the result has one row for
  each related enrollment that satisfies the condition, so a learner may be there more
  than once; each \<open>filter\<close> call joins the relation anew.  \<open>enrollments__isnull=True\<close>
  keeps the learners the relation is empty for.
\<close>

definition related_enrollments :: "enrollment list \<Rightarrow> learner \<Rightarrow> enrollment list" where
  "related_enrollments es l = filter (\<lambda>e. enterprise_user_id e = l_enterprise_user_id l) es"

definition join_filter ::
  "(enrollment \<Rightarrow> bool) \<Rightarrow> enrollment list \<Rightarrow> learner list \<Rightarrow> learner list" where
  "join_filter cond es queryset =
     concat (map (\<lambda>l. map (\<lambda>e. l) (filter cond (related_enrollments es l))) queryset)"

definition isnull_filter :: "enrollment list \<Rightarrow> learner list \<Rightarrow> learner list" where
  "isnull_filter es queryset = filter (\<lambda>l. related_enrollments es l = []) queryset"

text \<open>The two conditions of the \<open>active_courses\<close> filter, on one related enrollment.\<close>

definition active_courses_true :: "model_fields \<Rightarrow> timestamp \<Rightarrow> enrollment \<Rightarrow> bool" where
  "active_courses_true mf now e =
     (is_consent_granted e = True
      \<and> (case course_end_date e of None \<Rightarrow> False
         | Some d \<Rightarrow> date_le (date_to_python mf now) d))"

definition active_courses_false :: "model_fields \<Rightarrow> timestamp \<Rightarrow> enrollment \<Rightarrow> bool" where
  "active_courses_false mf now e =
     (is_consent_granted e = True
      \<and> (case course_end_date e of None \<Rightarrow> False
         | Some d \<Rightarrow> date_le d (date_to_python mf now)))"

text \<open>
  The subquery of an annotation: the enrollments of the outer learner that satisfy the
  condition, grouped by \<open>enterprise_user\<close>, with the number of distinct primary keys of
  the group.  With no such enrollment there is no group and the subquery is \<open>NULL\<close>;
  \<open>Coalesce\<close> then takes the default.
\<close>

definition count_pk_subquery ::
  "(enrollment \<Rightarrow> bool) \<Rightarrow> enrollment list \<Rightarrow> learner \<Rightarrow> nat option" where
  "count_pk_subquery cond es l =
     (let rows = filter (\<lambda>e. enterprise_user_id e = l_enterprise_user_id l \<and> cond e) es
      in if rows = [] then None else Some (length (remdups (map enrollment_id rows))))"

definition Coalesce :: "'a option \<Rightarrow> 'a \<Rightarrow> 'a" where
  "Coalesce v d = (case v of None \<Rightarrow> d | Some x \<Rightarrow> x)"

text \<open>A row of the listing: the learner, and each annotation if it was asked for.\<close>

record learner_row =
  row_learner :: learner
  enrollment_count :: "nat option"
  course_completion_count :: "nat option"

definition learner_get_queryset ::
  "model_fields \<Rightarrow> query_params \<Rightarrow> timestamp \<Rightarrow> learner list \<Rightarrow> enrollment list
     \<Rightarrow> learner_row list" where
  "learner_get_queryset mf qp now learners es =
     (let has_enrollments = qp_get qp ''has_enrollments'';
          q1 = (if has_enrollments = Some ''true'' then join_filter (\<lambda>e. True) es learners
                else if has_enrollments = Some ''false'' then isnull_filter es learners
                else learners);
          is_distinct = (has_enrollments = Some ''true'');
          active_courses = qp_get qp ''active_courses'';
          q2 = (if active_courses = Some ''true''
                then join_filter (active_courses_true mf now) es q1
                else if active_courses = Some ''false''
                then join_filter (active_courses_false mf now) es q1
                else q1);
          all_enrollments_passed = qp_get qp ''all_enrollments_passed'';
          q3 = (if all_enrollments_passed = Some ''true''
                then join_filter (\<lambda>e. has_passed e = True) es q2
                else if all_enrollments_passed = Some ''false''
                then join_filter (\<lambda>e. has_passed e = False) es q2
                else q2);
          extra_fields = qp_getlist qp ''extra_fields'';
          annotate_enrollment_count =
            (\<lambda>l. if ''enrollment_count'' \<in> set extra_fields
                 then Some (Coalesce
                        (count_pk_subquery (\<lambda>e. is_consent_granted e = True) es l) 0)
                 else None);
          annotate_course_completion_count =
            (\<lambda>l. if ''course_completion_count'' \<in> set extra_fields
                 then Some (Coalesce
                        (count_pk_subquery
                           (\<lambda>e. has_passed e = True \<and> is_consent_granted e = True) es l) 0)
                 else None);
          rows = map (\<lambda>l. \<lparr>row_learner = l,
                              enrollment_count = annotate_enrollment_count l,
                              course_completion_count = annotate_course_completion_count l\<rparr>)
                   q3
      in if is_distinct then remdups rows else rows)"

text \<open>\<open>list\<close>, up to the ordering, the pagination and the serializer.\<close>

definition learner_list ::
  "string \<Rightarrow> model_fields \<Rightarrow> query_params \<Rightarrow> timestamp \<Rightarrow> learner list \<Rightarrow> enrollment list
     \<Rightarrow> learner_row list" where
  "learner_list enterprise_id' mf qp now learners es =
     filter (\<lambda>r. l_enterprise_customer_uuid (row_learner r) = enterprise_id')
       (learner_get_queryset mf qp now learners es)"

text \<open>
  Two parts of \<open>get_queryset\<close>, named for the proofs: the row that the annotations make of
  a learner, and the \<open>active_courses\<close> filter.
\<close>

definition annotate_row :: "query_params \<Rightarrow> enrollment list \<Rightarrow> learner \<Rightarrow> learner_row" where
  "annotate_row qp es l =
     \<lparr>row_learner = l,
      enrollment_count =
        (if ''enrollment_count'' \<in> set (qp_getlist qp ''extra_fields'')
         then Some (Coalesce (count_pk_subquery (\<lambda>e. is_consent_granted e = True) es l) 0)
         else None),
      course_completion_count =
        (if ''course_completion_count'' \<in> set (qp_getlist qp ''extra_fields'')
         then Some (Coalesce
                (count_pk_subquery
                   (\<lambda>e. has_passed e = True \<and> is_consent_granted e = True) es l) 0)
         else None)\<rparr>"

definition active_courses_stage ::
  "model_fields \<Rightarrow> query_params \<Rightarrow> timestamp \<Rightarrow> enrollment list \<Rightarrow> learner list
     \<Rightarrow> learner list" where
  "active_courses_stage mf qp now es q1 =
     (if qp_get qp ''active_courses'' = Some ''true''
      then join_filter (active_courses_true mf now) es q1
      else if qp_get qp ''active_courses'' = Some ''false''
      then join_filter (active_courses_false mf now) es q1
      else q1)"

section \<open>\<open>EnterpriseLearnerCompletedCoursesViewSet\<close>\<close>



section \<open>\<open>EnterpriseAdminInsightsView\<close>\<close>

text \<open>
  The two snapshot tables hold one row for an enterprise at most and are keyed by its id,
  as the spec's data model has them; \<open>objects.get\<close> is the lookup, \<open>DoesNotExist\<close> is
  \<open>None\<close>.  The serializers are arguments (they are not part of the sources at hand); the
  \<open>data\<close> of a serializer is the list of its fields with their values, and \<open>{}\<close> is the
  empty list.  The response is its \<open>data\<close>, a dictionary as a list of keys with values in
  the order they were set, and its status.
\<close>

type_synonym serialized = "(string \<times> string) list"

definition HTTP_200_OK :: nat where "HTTP_200_OK = 200"
definition HTTP_404_NOT_FOUND :: nat where "HTTP_404_NOT_FOUND = 404"

definition insights_get ::
  "('p \<Rightarrow> serialized) \<Rightarrow> ('s \<Rightarrow> serialized) \<Rightarrow> (string \<Rightarrow> 'p option) \<Rightarrow> (string \<Rightarrow> 's option)
     \<Rightarrow> string \<Rightarrow> (string \<times> serialized) list \<times> nat" where
  "insights_get progress_serializer insights_serializer progress_table insights_table
       enterprise_id' =
     (let response_data = [];
          (learner_progress, response_data) =
            (case progress_table enterprise_id' of
               Some row \<Rightarrow>
                 (progress_serializer row,
                  response_data @ [(''learner_progress'', progress_serializer row)])
             | None \<Rightarrow> ([], response_data));
          (learner_engagement, response_data) =
            (case insights_table enterprise_id' of
               Some row \<Rightarrow>
                 (insights_serializer row,
                  response_data @ [(''learner_engagement'', insights_serializer row)])
             | None \<Rightarrow> ([], response_data));
          status = (if learner_progress = [] \<and> learner_engagement = []
                    then HTTP_404_NOT_FOUND else HTTP_200_OK)
      in (response_data, status))"

section \<open>The version 0 views (api/v0/views.py)\<close>

text \<open>The columns of \<open>EnterpriseEnrollment\<close> that the views read.\<close>

record enterprise_enrollment =
  ee_enterprise_id :: string
  ee_enterprise_user_id :: nat
  ee_consent_granted :: bool
  ee_has_passed :: bool
  ee_last_activity_date :: "date option"

record v0_view =
  v0_enterprise_id :: string
  v0_full_path :: string

text \<open>
  Modelled from the spec: \<open>ConsentGrantedFilterBackend\<close> of \<open>enterprise_data.filters\<close>, which
  is not part of the sources at hand: the mandatory filter that keeps the rows with consent
  granted (the column the view names in \<open>CONSENT_GRANTED_FILTER\<close>).
\<close>

definition v0_filter_queryset :: "enterprise_enrollment list \<Rightarrow> enterprise_enrollment list" where
  "v0_filter_queryset queryset = filter (\<lambda>e. ee_consent_granted e = True) queryset"

definition unable_to_fetch_message :: "string \<Rightarrow> string" where
  "unable_to_fetch_message path =
     ''Unable to fetch API response from endpoint '' @ [CHR 0x27] @ path @ [CHR 0x27] @ ''.''"

definition ensure_data_exists ::
  "string \<Rightarrow> 'a list \<Rightarrow> string option \<Rightarrow> log_entry list \<Rightarrow> (error + unit) \<times> log_entry list" where
  "ensure_data_exists path data_rows error_message lg =
     (if data_rows = []
      then
        let error_message' =
              (case error_message of
                 None \<Rightarrow> unable_to_fetch_message path
               | Some m \<Rightarrow> if m = [] then unable_to_fetch_message path else m)
        in (Inl (NotFound error_message'), lg @ [(ERROR, error_message')])
      else (Inr (), lg))"

definition no_enrollments_message :: "string \<Rightarrow> string \<Rightarrow> string" where
  "no_enrollments_message enterprise_id' path =
     ''No course enrollments are associated with Enterprise '' @ enterprise_id'
       @ '' from endpoint '' @ [CHR 0x27] @ path @ [CHR 0x27] @ ''.''"

definition v0_get_queryset ::
  "v0_view \<Rightarrow> enterprise_enrollment list \<Rightarrow> log_entry list
     \<Rightarrow> (error + enterprise_enrollment list) \<times> log_entry list" where
  "v0_get_queryset self table lg =
     (let enterprise_id' = v0_enterprise_id self;
          enrollments = filter (\<lambda>e. ee_enterprise_id e = enterprise_id') table;
          enrollments = v0_filter_queryset enrollments
      in case ensure_data_exists (v0_full_path self) enrollments
                (Some (no_enrollments_message enterprise_id' (v0_full_path self))) lg of
           (Inl e, lg') \<Rightarrow> (Inl e, lg')
         | (Inr u, lg') \<Rightarrow> (Inr enrollments, lg'))"

definition v0_filter_distinct_learners :: "enterprise_enrollment list \<Rightarrow> nat list" where
  "v0_filter_distinct_learners queryset = remdups (map ee_enterprise_user_id queryset)"

definition v0_filter_active_learners :: "enterprise_enrollment list \<Rightarrow> date \<Rightarrow> nat list" where
  "v0_filter_active_learners queryset activity_date =
     v0_filter_distinct_learners
       (filter (\<lambda>e. case ee_last_activity_date e of None \<Rightarrow> False
                   | Some a \<Rightarrow> date_le activity_date a) queryset)"

definition v0_filter_course_completions ::
  "enterprise_enrollment list \<Rightarrow> enterprise_enrollment list" where
  "v0_filter_course_completions queryset = filter (\<lambda>e. ee_has_passed e = True) queryset"

record overview_content =
  enrolled_learners :: nat
  active_learners_past_week :: nat
  active_learners_past_month :: nat
  course_completions :: nat

definition v0_overview ::
  "v0_view \<Rightarrow> date \<Rightarrow> enterprise_enrollment list \<Rightarrow> log_entry list
     \<Rightarrow> (error + overview_content) \<times> log_entry list" where
  "v0_overview self today' table lg =
     (case v0_get_queryset self table lg of
        (Inl e, lg') \<Rightarrow> (Inl e, lg')
      | (Inr enrollments, lg') \<Rightarrow>
          let course_completions' = v0_filter_course_completions enrollments;
              distinct_learners = v0_filter_distinct_learners enrollments
          in case sub_days 7 today' of
               Inl e \<Rightarrow> (Inl e, lg')
             | Inr past_week_date \<Rightarrow>
                 (case subtract_one_month today' of
                    Inl e \<Rightarrow> (Inl e, lg')
                  | Inr past_month_date \<Rightarrow>
                      let active_learners_week =
                            v0_filter_active_learners enrollments past_week_date;
                          active_learners_month =
                            v0_filter_active_learners enrollments past_month_date
                      in (Inr \<lparr>enrolled_learners = length distinct_learners,
                               active_learners_past_week = length active_learners_week,
                               active_learners_past_month = length active_learners_month,
                               course_completions = length course_completions'\<rparr>, lg')))"

text \<open>\<open>list\<close> of the model view set, up to the pagination and the serializer.\<close>

definition v0_list ::
  "v0_view \<Rightarrow> enterprise_enrollment list \<Rightarrow> log_entry list
     \<Rightarrow> (error + enterprise_enrollment list) \<times> log_entry list" where
  "v0_list self table lg =
     (case v0_get_queryset self table lg of
        (Inl e, lg') \<Rightarrow> (Inl e, lg')
      | (Inr enrollments, lg') \<Rightarrow> (Inr (v0_filter_queryset enrollments), lg'))"

section \<open>The closed form of \<open>subtract_one_month\<close>\<close>

text \<open>
  What the loop arrives at, stated without the loop: the day of the original date in the
  month before, or the last day of that month if the month is shorter.
  \<open>previous_month_length\<close> is the number of days of the month before.
\<close>

definition previous_month_length :: "date \<Rightarrow> nat" where
  "previous_month_length d =
     (if 1 < month d then days_in_month (year d) (month d - 1) else 31)"

definition previous_month_day :: "date \<Rightarrow> date" where
  "previous_month_day d =
     (if 1 < month d
      then \<lparr>year = year d, month = month d - 1,
            day = min (day d) (days_in_month (year d) (month d - 1))\<rparr>
      else \<lparr>year = year d - 1, month = 12, day = min (day d) 31\<rparr>)"

section \<open>The stages of \<open>apply_filters\<close>\<close>

text \<open>
  Three runs of consecutive statements of \<open>apply_filters\<close>, named for the proofs: the
  \<open>learner_activity\<close> filters, the search filters, and the filters on single columns from
  \<open>offer_id\<close> to \<open>course_product_line\<close>.  \<open>apply_filters_staged\<close> shows that
  \<open>apply_filters\<close> is their composition.
\<close>

definition activity_stage ::
  "model_fields \<Rightarrow> string option \<Rightarrow> timestamp \<Rightarrow> date \<Rightarrow> date \<Rightarrow> enrollment list
     \<Rightarrow> enrollment list" where
  "activity_stage mf p now w m q1 =
     (let q2 = if_given p (\<lambda>v. filter_active_enrollments mf now) q1
      in if p = Some ''active_past_week'' then filter_active_learners q2 w
         else if p = Some ''inactive_past_week'' then filter_inactive_learners q2 w
         else if p = Some ''inactive_past_month'' then filter_inactive_learners q2 m
         else q2)"

definition search_stage :: "query_params \<Rightarrow> enrollment list \<Rightarrow> enrollment list" where
  "search_stage qp q3 =
     if_given (qp_get qp ''search_course'') (\<lambda>v. filter (\<lambda>e. icontains (course_title e) v))
       (if_given (qp_get qp ''search_all'')
          (\<lambda>v. filter (\<lambda>e. icontains (user_email e) v \<or> icontains (course_title e) v))
          (if_given (qp_get qp ''search'') (\<lambda>v. filter (\<lambda>e. icontains (user_email e) v)) q3))"

definition column_stage :: "query_params \<Rightarrow> enrollment list \<Rightarrow> enrollment list" where
  "column_stage qp q7 =
     if_given (qp_get qp ''course_product_line'')
       (\<lambda>v. filter (\<lambda>e. course_product_line e = Some v))
       (if_given (qp_get qp ''ignore_null_course_list_price'')
          (\<lambda>v. filter (\<lambda>e. course_list_price e \<noteq> None))
          (if_given (qp_get qp ''budget_id'') (\<lambda>v. filter (\<lambda>e. budget_id e = Some v))
             (if_given (qp_get qp ''offer_id'') (\<lambda>v q. filter_by_offer_id q v) q7)))"

section \<open>Example data\<close>

text \<open>Rows and settings that the theorems below are evaluated at.\<close>

definition ex_fields :: model_fields where
  "ex_fields =
     \<lparr>date_to_python =
        (\<lambda>t. if t < 86400000000 then \<lparr>year = 2024, month = 3, day = 31\<rparr>
             else \<lparr>year = 2024, month = 4, day = 1\<rparr>),
      start_date_to_python = (\<lambda>s. None), is_subsidy_to_python = (\<lambda>s. None)\<rparr>"

definition ex_enrollment :: enrollment where
  "ex_enrollment =
     \<lparr>enrollment_id = 1, enterprise_customer_uuid = ''e1'', enterprise_user_id = 7,
      user_email = Some ''a@example.com'', course_title = Some ''Logic'',
      courserun_key = Some ''course-v1:X+L+1'', is_consent_granted = True,
      has_passed = False, passed_date = None,
      last_activity_date = Some \<lparr>year = 2024, month = 2, day = 10\<rparr>,
      course_start_date = None,
      course_end_date = Some \<lparr>year = 2024, month = 3, day = 31\<rparr>, offer_id = None,
      budget_id = None, course_list_price = None, course_product_line = None,
      is_subsidy = False, created = Some 10\<rparr>"

definition ex_learner :: learner where
  "ex_learner = \<lparr>l_enterprise_user_id = 7, l_enterprise_customer_uuid = ''e1'',
                 l_user_email = Some ''a@example.com''\<rparr>"


definition ex_no_consent :: enrollment where
  "ex_no_consent = ex_enrollment\<lparr>enrollment_id := 2, is_consent_granted := False,
                                  has_passed := True,
                                  passed_date := Some \<lparr>year = 2024, month = 3, day = 21\<rparr>\<rparr>"

definition ex_offer_v4 :: enrollment where
  "ex_offer_v4 = ex_enrollment\<lparr>offer_id := Some ''123e4567e89b42d3a456426614174000''\<rparr>"

definition ex_offer_v1 :: enrollment where
  "ex_offer_v1 = ex_enrollment\<lparr>enrollment_id := 3,
                                offer_id := Some ''123e4567e89b12d3a456426614174000''\<rparr>"

definition ex_offer_42 :: enrollment where
  "ex_offer_42 = ex_enrollment\<lparr>enrollment_id := 4, offer_id := Some ''42''\<rparr>"

definition ex_view :: view where
  "ex_view = \<lparr>swagger_fake_view = False, enterprise_id = ''e1'', query_params = [],
              full_path = ''/enterprise/e1/enrollments/'', username = ''admin''\<rparr>"

definition ex_env :: env where
  "ex_env = \<lparr>clock_now = 100, clock_today = \<lparr>year = 2024, month = 3, day = 31\<rparr>,
             model = ex_fields, learner_table = [], enrollment_table = [ex_enrollment]\<rparr>"

definition ex_world :: world where
  "ex_world = \<lparr>cache = Map.empty, log = []\<rparr>"

section \<open>Properties of the calendar and of \<open>subtract_one_month\<close>\<close>

lemma days_in_month_bounds: "28 \<le> days_in_month y m \<and> days_in_month y m \<le> 31"
  by (simp add: days_in_month_def)

lemma sub_one_day_decreases: "sub_one_day d = Inr d' \<Longrightarrow> date_lt d' d"
  by (auto simp: sub_one_day_def date_lt_def split: if_splits)

lemma days_before_month_Suc:
  "1 \<le> m \<Longrightarrow> days_before_month y (Suc m) = days_before_month y m + days_in_month y m"
  by (simp add: days_before_month_def)

lemma months_list: "[Suc 0..<13] = [1, 2, 3, 4, 5, 6, 7, 8, 9, 10, 11, 12 :: nat]"
  by code_simp

lemma days_before_month_13:
  "days_before_month y 13 = (if is_leap y then 366 else 365)"
  by (simp add: days_before_month_def days_in_month_def months_list)

lemma days_before_year_Suc:
  "1 \<le> y \<Longrightarrow> days_before_year (Suc y) = days_before_year y + (if is_leap y then 366 else 365)"
proof -
  assume "1 \<le> y"
  then obtain p where p: "y = Suc p" by (cases y) simp_all
  have d: "p div 100 \<le> p div 4" by (rule div_le_mono2) simp_all
  have e: "Suc p mod 4 = 0" if "Suc p mod 100 = 0"
  proof -
    from that have "100 dvd Suc p" by (simp add: mod_eq_0_iff_dvd)
    moreover have "(4::nat) dvd 100" by simp
    ultimately have "4 dvd Suc p" by (rule dvd_trans [rotated])
    then show ?thesis by (simp add: mod_eq_0_iff_dvd)
  qed
  have f: "Suc p mod 100 = 0" if "Suc p mod 400 = 0"
  proof -
    from that have "400 dvd Suc p" by (simp add: mod_eq_0_iff_dvd)
    moreover have "(100::nat) dvd 400" by simp
    ultimately have "100 dvd Suc p" by (rule dvd_trans [rotated])
    then show ?thesis by (simp add: mod_eq_0_iff_dvd)
  qed
  have ef: "Suc p mod 100 = 0 \<longrightarrow> Suc p mod 4 = 0"
      "Suc p mod 400 = 0 \<longrightarrow> Suc p mod 100 = 0"
    using e f by blast+
  define q4 q100 q400 where "q4 = p div 4" and "q100 = p div 100" and "q400 = p div 400"
  have s4: "Suc p div 4 = (if Suc p mod 4 = 0 then Suc q4 else q4)"
    and s100: "Suc p div 100 = (if Suc p mod 100 = 0 then Suc q100 else q100)"
    and s400: "Suc p div 400 = (if Suc p mod 400 = 0 then Suc q400 else q400)"
    by (simp_all add: div_Suc q4_def q100_def q400_def)
  have le: "q100 \<le> q4" using d by (simp add: q4_def q100_def)
  have lhs: "days_before_year (Suc (Suc p))
      = Suc p * 365 + Suc p div 4 - Suc p div 100 + Suc p div 400"
    by (simp add: days_before_year_def)
  have rhs: "days_before_year (Suc p) = p * 365 + q4 - q100 + q400"
    by (simp add: days_before_year_def q4_def q100_def q400_def)
  consider (a) "Suc p mod 4 \<noteq> 0" | (b) "Suc p mod 4 = 0" "Suc p mod 100 \<noteq> 0"
    | (c) "Suc p mod 100 = 0" "Suc p mod 400 \<noteq> 0" | (d) "Suc p mod 400 = 0"
    by blast
  then show ?thesis
  proof cases
    case a
    with ef have "Suc p mod 100 \<noteq> 0" "Suc p mod 400 \<noteq> 0" by auto
    with a le show ?thesis
      unfolding p lhs rhs s4 s100 s400 is_leap_def by simp
  next
    case b
    with ef have "Suc p mod 400 \<noteq> 0" by blast
    with b le show ?thesis
      unfolding p lhs rhs s4 s100 s400 is_leap_def by simp
  next
    case c
    with ef have "Suc p mod 4 = 0" by blast
    with c le show ?thesis
      unfolding p lhs rhs s4 s100 s400 is_leap_def by simp
  next
    case d
    with ef have "Suc p mod 100 = 0" "Suc p mod 4 = 0" by auto
    with d le show ?thesis
      unfolding p lhs rhs s4 s100 s400 is_leap_def by simp
  qed
qed

lemma toordinal_min: "toordinal \<lparr>year = 1, month = 1, day = 1\<rparr> = 1"
  by (simp add: toordinal_def days_before_year_def days_before_month_def)

lemma sub_one_day_toordinal:
  assumes v: "valid_date d" and s: "sub_one_day d = Inr d'"
  shows "valid_date d' \<and> toordinal d' + 1 = toordinal d"
proof -
  from v have b: "1 \<le> year d" "year d \<le> 9999" "1 \<le> month d" "month d \<le> 12"
      "1 \<le> day d" "day d \<le> days_in_month (year d) (month d)"
    by (simp_all add: valid_date_def MINYEAR_def MAXYEAR_def)
  consider (day) "1 < day d" | (month) "day d = 1" "1 < month d"
    | (year) "day d = 1" "month d = 1" "1 < year d"
    | (min) "day d = 1" "month d = 1" "year d = 1"
    using b by linarith
  then show ?thesis
  proof cases
    case day
    with s have d': "d' = d\<lparr>day := day d - 1\<rparr>" by (simp add: sub_one_day_def)
    from day obtain c where c: "day d = Suc c" "1 \<le> c" by (cases "day d") simp_all
    from b c show ?thesis
      by (simp add: d' valid_date_def MINYEAR_def MAXYEAR_def toordinal_def)
  next
    case month
    with s have d': "d' = d\<lparr>month := month d - 1,
        day := days_in_month (year d) (month d - 1)\<rparr>"
      by (simp add: sub_one_day_def)
    from month obtain m where m: "month d = Suc m" "1 \<le> m" by (cases "month d") simp_all
    have "days_before_month (year d) (Suc m)
        = days_before_month (year d) m + days_in_month (year d) m"
      using m by (intro days_before_month_Suc)
    with month b m days_in_month_bounds [of "year d" m] show ?thesis
      by (simp add: d' valid_date_def MINYEAR_def MAXYEAR_def toordinal_def)
  next
    case year
    with s have d': "d' = d\<lparr>year := year d - 1, month := 12, day := 31\<rparr>"
      by (simp add: sub_one_day_def MINYEAR_def)
    from year obtain y where y: "year d = Suc y" "1 \<le> y" by (cases "year d") simp_all
    have 1: "days_before_year (Suc y) = days_before_year y + (if is_leap y then 366 else 365)"
      using y by (intro days_before_year_Suc)
    have 2: "days_before_month y 13 = days_before_month y 12 + days_in_month y 12"
      using days_before_month_Suc [of 12 y] by simp
    have 3: "days_in_month y 12 = 31" by (simp add: days_in_month_def)
    have 4: "days_before_month (Suc y) 1 = 0" by (simp add: days_before_month_def)
    from year b y 1 2 3 4 days_before_month_13 [of y] show ?thesis
      by (simp add: d' valid_date_def MINYEAR_def MAXYEAR_def toordinal_def split: if_splits)
  next
    case min
    with s show ?thesis by (simp add: sub_one_day_def MINYEAR_def)
  qed
qed

lemma days_before_month_next:
  "1 \<le> m \<Longrightarrow> m < n \<Longrightarrow> days_before_month y m + days_in_month y m \<le> days_before_month y n"
proof (induction n)
  case 0
  then show ?case by simp
next
  case (Suc n)
  show ?case
  proof (cases "m = n")
    case True
    with Suc.prems show ?thesis by (simp add: days_before_month_Suc)
  next
    case False
    with Suc.prems have "m < n" "1 \<le> n" by simp_all
    with Suc.IH Suc.prems show ?thesis by (simp add: days_before_month_Suc)
  qed
qed

lemma days_before_year_next:
  "1 \<le> y \<Longrightarrow> y < z \<Longrightarrow>
   days_before_year y + (if is_leap y then 366 else 365) \<le> days_before_year z"
proof (induction z)
  case 0
  then show ?case by simp
next
  case (Suc z)
  show ?case
  proof (cases "y = z")
    case True
    with Suc.prems show ?thesis by (simp add: days_before_year_Suc)
  next
    case False
    with Suc.prems have "y < z" "1 \<le> z" by simp_all
    with Suc.IH Suc.prems show ?thesis by (simp add: days_before_year_Suc)
  qed
qed

lemma day_of_year_bound:
  assumes v: "valid_date d"
  shows "days_before_month (year d) (month d) + day d
           \<le> (if is_leap (year d) then 366 else 365)"
proof -
  from v have b: "1 \<le> month d" "month d < 13" "day d \<le> days_in_month (year d) (month d)"
    by (simp_all add: valid_date_def)
  from days_before_month_next [OF b(1) b(2), of "year d"] b(3)
  have "days_before_month (year d) (month d) + day d \<le> days_before_month (year d) 13"
    by simp
  then show ?thesis by (simp only: days_before_month_13)
qed

lemma toordinal_mono:
  assumes a: "valid_date a" and b: "valid_date b" and lt: "date_lt a b"
  shows "toordinal a < toordinal b"
proof -
  from a b have ba: "1 \<le> year a" "1 \<le> month a" "day a \<le> days_in_month (year a) (month a)"
    and bb: "1 \<le> day b"
    by (simp_all add: valid_date_def MINYEAR_def)
  from lt consider (year) "year a < year b"
    | (month) "year a = year b" "month a < month b"
    | (day) "year a = year b" "month a = month b" "day a < day b"
    by (auto simp: date_lt_def)
  then show ?thesis
  proof cases
    case year
    from days_before_year_next [OF ba(1) year] day_of_year_bound [OF a] bb
    show ?thesis by (simp add: toordinal_def split: if_splits)
  next
    case month
    from days_before_month_next [OF ba(2) month(2), of "year a"] ba(3) bb month(1)
    show ?thesis by (simp add: toordinal_def)
  next
    case day
    then show ?thesis by (simp add: toordinal_def)
  qed
qed

lemma sub_one_day_raises:
  assumes v: "valid_date d" and s: "sub_one_day d = Inl e"
  shows "e = OverflowError \<and> toordinal d = 1"
proof -
  from v have "1 \<le> year d" "1 \<le> month d" "1 \<le> day d"
    by (simp_all add: valid_date_def MINYEAR_def)
  with s have "e = OverflowError" "year d = 1" "month d = 1" "day d = 1"
    by (auto simp: sub_one_day_def MINYEAR_def split: if_splits)
  then show ?thesis
    by (simp add: toordinal_def days_before_year_def days_before_month_def)
qed

lemma walk_back_same_month:
  "month D = m \<Longrightarrow> 1 \<le> c \<Longrightarrow>
   walk_back D \<lparr>year = y, month = m, day = c\<rparr> =
     (case sub_one_day \<lparr>year = y, month = m, day = 1\<rparr> of
        Inl e \<Rightarrow> Inl e | Inr d \<Rightarrow> walk_back D d)"
proof (induction c)
  case 0
  then show ?case by simp
next
  case (Suc c)
  show ?case
  proof (cases "c = 0")
    case True
    with Suc.prems show ?thesis by (subst walk_back.simps) simp
  next
    case False
    then have "sub_one_day \<lparr>year = y, month = m, day = Suc c\<rparr>
        = Inr \<lparr>year = y, month = m, day = c\<rparr>"
      by (simp add: sub_one_day_def)
    with Suc False show ?thesis by (subst walk_back.simps) simp
  qed
qed

lemma walk_back_other_month:
  "m \<noteq> month D \<Longrightarrow> 1 \<le> day D \<Longrightarrow> 1 \<le> c \<Longrightarrow>
   walk_back D \<lparr>year = y, month = m, day = c\<rparr> = Inr \<lparr>year = y, month = m, day = min c (day D)\<rparr>"
proof (induction c)
  case 0
  then show ?case by simp
next
  case (Suc c)
  show ?case
  proof (cases "Suc c \<le> day D")
    case True
    with Suc.prems show ?thesis by (subst walk_back.simps) (simp add: min_def)
  next
    case False
    with Suc.prems have c: "1 \<le> c" "day D \<le> c" by auto
    then have "sub_one_day \<lparr>year = y, month = m, day = Suc c\<rparr>
        = Inr \<lparr>year = y, month = m, day = c\<rparr>"
      by (simp add: sub_one_day_def)
    with Suc c False show ?thesis by (subst walk_back.simps) (simp add: min_def)
  qed
qed

lemma sub_one_day_first:
  "\<not> (y = 1 \<and> m = 1) \<Longrightarrow> 1 \<le> y \<Longrightarrow> 1 \<le> m \<Longrightarrow>
   sub_one_day \<lparr>year = y, month = m, day = 1\<rparr> =
     Inr (if 1 < m then \<lparr>year = y, month = m - 1, day = days_in_month y (m - 1)\<rparr>
          else \<lparr>year = y - 1, month = 12, day = 31\<rparr>)"
  by (auto simp: sub_one_day_def MINYEAR_def)

text \<open>
  The first phase of the walk leaves the month of the original date: the candidate passes
  the first of the month and the walk goes on from the day before it, if there is one.
\<close>

lemma subtract_one_month_first_of_month:
  assumes v: "valid_date D"
  shows "subtract_one_month D =
      (case sub_one_day \<lparr>year = year D, month = month D, day = 1\<rparr> of
         Inl e \<Rightarrow> Inl e | Inr d \<Rightarrow> walk_back D d)"
proof -
  define y m c where "y = year D" and "m = month D" and "c = day D"
  have D: "D = \<lparr>year = y, month = m, day = c\<rparr>"
    by (simp add: y_def m_def c_def)
  from v have b: "1 \<le> y" "1 \<le> m" "m \<le> 12" "1 \<le> c"
    by (simp_all add: valid_date_def MINYEAR_def y_def m_def c_def)
  show ?thesis
  proof (cases "c = 1")
    case True
    then have "D = \<lparr>year = y, month = m, day = 1\<rparr>" using D by simp
    then have "sub_one_day D = sub_one_day \<lparr>year = y, month = m, day = 1\<rparr>" by simp
    then show ?thesis by (simp only: subtract_one_month_def y_def m_def)
  next
    case False
    with b have "sub_one_day \<lparr>year = y, month = m, day = c\<rparr>
       = Inr \<lparr>year = y, month = m, day = c - 1\<rparr>"
      by (simp add: sub_one_day_def)
    then have "sub_one_day D = Inr \<lparr>year = y, month = m, day = c - 1\<rparr>"
      using D by simp
    moreover have "walk_back D \<lparr>year = y, month = m, day = c - 1\<rparr> =
      (case sub_one_day \<lparr>year = y, month = m, day = 1\<rparr> of
         Inl e \<Rightarrow> Inl e | Inr d \<Rightarrow> walk_back D d)"
      using False b by (intro walk_back_same_month) (simp_all add: m_def)
    ultimately show ?thesis by (simp only: subtract_one_month_def sum.case y_def m_def)
  qed
qed

lemma subtract_one_month_january_of_year_1:
  assumes v: "valid_date D" and j: "year D = 1" "month D = 1"
  shows "subtract_one_month D = Inl OverflowError"
  using subtract_one_month_first_of_month [OF v] j
  by (simp add: sub_one_day_def MINYEAR_def)

lemma subtract_one_month_closed_form:
  assumes v: "valid_date D" and nj: "\<not> (year D = 1 \<and> month D = 1)"
  shows "subtract_one_month D = Inr (previous_month_day D)"
proof -
  define y m c where "y = year D" and "m = month D" and "c = day D"
  from v have b: "1 \<le> y" "1 \<le> m" "m \<le> 12" "1 \<le> c"
    by (simp_all add: valid_date_def MINYEAR_def y_def m_def c_def)
  from nj have nj': "\<not> (y = 1 \<and> m = 1)" by (simp add: y_def m_def)
  have first: "subtract_one_month D =
      (case sub_one_day \<lparr>year = y, month = m, day = 1\<rparr> of
         Inl e \<Rightarrow> Inl e | Inr d \<Rightarrow> walk_back D d)"
    using subtract_one_month_first_of_month [OF v] by (simp only: y_def m_def)
  show ?thesis
  proof (cases "1 < m")
    case True
    then have "m - 1 \<noteq> month D" by (simp add: m_def)
    moreover have "1 \<le> days_in_month y (m - 1)"
      using days_in_month_bounds [of y "m - 1"] by simp
    ultimately have "walk_back D \<lparr>year = y, month = m - 1, day = days_in_month y (m - 1)\<rparr>
       = Inr \<lparr>year = y, month = m - 1, day = min (days_in_month y (m - 1)) (day D)\<rparr>"
      using b by (intro walk_back_other_month) (simp_all add: c_def)
    moreover have "sub_one_day \<lparr>year = y, month = m, day = 1\<rparr>
       = Inr \<lparr>year = y, month = m - 1, day = days_in_month y (m - 1)\<rparr>"
      using True b by (simp add: sub_one_day_def)
    moreover have "previous_month_day D
       = \<lparr>year = y, month = m - 1, day = min (days_in_month y (m - 1)) (day D)\<rparr>"
      using True by (simp add: previous_month_day_def y_def m_def min.commute)
    ultimately show ?thesis using first by (simp only: sum.case)
  next
    case False
    with b have m1: "m = 1" by simp
    then have "12 \<noteq> month D" by (simp add: m_def)
    then have "walk_back D \<lparr>year = y - 1, month = 12, day = 31\<rparr>
       = Inr \<lparr>year = y - 1, month = 12, day = min 31 (day D)\<rparr>"
      using b by (intro walk_back_other_month) (simp_all add: c_def)
    moreover have "sub_one_day \<lparr>year = y, month = m, day = 1\<rparr>
       = Inr \<lparr>year = y - 1, month = 12, day = 31\<rparr>"
      using m1 b nj' by (auto simp: sub_one_day_def MINYEAR_def)
    moreover have "previous_month_day D
       = \<lparr>year = y - 1, month = 12, day = min 31 (day D)\<rparr>"
      using m1 by (simp add: previous_month_day_def y_def m_def min.commute)
    ultimately show ?thesis using first by (simp only: sum.case)
  qed
qed

lemma sub_days_within_month:
  "n < c \<Longrightarrow> sub_days n \<lparr>year = y, month = m, day = c\<rparr> = Inr \<lparr>year = y, month = m, day = c - n\<rparr>"
proof (induction n arbitrary: c)
  case 0
  then show ?case by simp
next
  case (Suc n)
  then have "sub_one_day \<lparr>year = y, month = m, day = c\<rparr> = Inr \<lparr>year = y, month = m, day = c - 1\<rparr>"
    by (simp add: sub_one_day_def)
  moreover have "sub_days n \<lparr>year = y, month = m, day = c - 1\<rparr>
      = Inr \<lparr>year = y, month = m, day = c - 1 - n\<rparr>"
    using Suc.prems by (intro Suc.IH) simp
  ultimately show ?case by simp
qed

lemma sub_days_add:
  "sub_days (a + b) d = (case sub_days a d of Inl e \<Rightarrow> Inl e | Inr d' \<Rightarrow> sub_days b d')"
  by (induction a arbitrary: d) (auto split: sum.splits)

lemma sub_days_to_previous_month:
  assumes b: "1 \<le> y" "1 \<le> m" "1 \<le> c" and nj: "\<not> (y = 1 \<and> m = 1)"
  shows "sub_days c \<lparr>year = y, month = m, day = c\<rparr> =
     Inr (if 1 < m then \<lparr>year = y, month = m - 1, day = days_in_month y (m - 1)\<rparr>
          else \<lparr>year = y - 1, month = 12, day = 31\<rparr>)"
proof -
  have "sub_days ((c - 1) + 1) \<lparr>year = y, month = m, day = c\<rparr> =
     (case sub_days (c - 1) \<lparr>year = y, month = m, day = c\<rparr> of
        Inl e \<Rightarrow> Inl e | Inr d' \<Rightarrow> sub_days 1 d')"
    by (rule sub_days_add)
  moreover have "sub_days (c - 1) \<lparr>year = y, month = m, day = c\<rparr>
      = Inr \<lparr>year = y, month = m, day = c - (c - 1)\<rparr>"
    using b by (intro sub_days_within_month) simp
  moreover have "c - (c - 1) = 1" "c - 1 + 1 = c" using b by simp_all
  ultimately have "sub_days c \<lparr>year = y, month = m, day = c\<rparr>
      = sub_days 1 \<lparr>year = y, month = m, day = 1\<rparr>"
    by simp
  then show ?thesis
    using sub_one_day_first [OF nj b(1) b(2)] by simp
qed

lemma subtract_one_month_steps:
  assumes v: "valid_date D" and nj: "\<not> (year D = 1 \<and> month D = 1)"
  shows "sub_days (max (day D) (previous_month_length D)) D = Inr (previous_month_day D)"
proof -
  define y m c where "y = year D" and "m = month D" and "c = day D"
  define L where "L = previous_month_length D"
  define py pm where "py = (if 1 < m then y else y - 1)" and "pm = (if 1 < m then m - 1 else 12)"
  have D: "D = \<lparr>year = y, month = m, day = c\<rparr>"
    by (simp add: y_def m_def c_def)
  from v have b: "1 \<le> y" "1 \<le> m" "1 \<le> c"
    by (simp_all add: valid_date_def MINYEAR_def y_def m_def c_def)
  from nj have nj': "\<not> (y = 1 \<and> m = 1)" by (simp add: y_def m_def)
  have L: "1 \<le> L"
    using days_in_month_bounds [of y "m - 1"]
    by (simp add: L_def previous_month_length_def y_def m_def)
  have one: "sub_days c D = Inr \<lparr>year = py, month = pm, day = L\<rparr>"
    using sub_days_to_previous_month [OF b nj']
    by (simp add: D L_def previous_month_length_def py_def pm_def)
  have two: "sub_days (L - min c L) \<lparr>year = py, month = pm, day = L\<rparr>
      = Inr \<lparr>year = py, month = pm, day = L - (L - min c L)\<rparr>"
    using L b by (intro sub_days_within_month) (simp add: min_def)
  have "sub_days (c + (L - min c L)) D
      = Inr \<lparr>year = py, month = pm, day = L - (L - min c L)\<rparr>"
    by (simp only: sub_days_add one two sum.case)
  moreover have "c + (L - min c L) = max c L" by (simp add: max_def min_def)
  ultimately have "sub_days (max c L) D
      = Inr \<lparr>year = py, month = pm, day = L - (L - min c L)\<rparr>"
    by (simp only:)
  moreover have "L - (L - min c L) = min c L" by (simp add: min_def)
  moreover have "previous_month_day D = \<lparr>year = py, month = pm, day = min c L\<rparr>"
    by (simp add: previous_month_day_def py_def pm_def L_def previous_month_length_def
        y_def m_def c_def)
  ultimately show ?thesis by (simp add: c_def L_def)
qed

lemma previous_month_day_valid:
  assumes v: "valid_date D" and nj: "\<not> (year D = 1 \<and> month D = 1)"
  shows "valid_date (previous_month_day D)"
proof -
  from v have b: "1 \<le> year D" "year D \<le> 9999" "1 \<le> month D" "month D \<le> 12"
      "1 \<le> day D"
    by (simp_all add: valid_date_def MINYEAR_def MAXYEAR_def)
  show ?thesis
  proof (cases "1 < month D")
    case True
    have "1 \<le> min (day D) (days_in_month (year D) (month D - 1))"
      using b days_in_month_bounds [of "year D" "month D - 1"] by simp
    moreover from True b have "1 \<le> month D - 1" "month D - 1 \<le> 12" by arith+
    ultimately show ?thesis using b
      by (simp add: valid_date_def previous_month_day_def MINYEAR_def MAXYEAR_def)
  next
    case False
    with b nj have m1: "month D = 1" "1 < year D" by simp_all
    with b have "1 \<le> year D - 1" "year D - 1 \<le> 9999" by arith+
    with b m1 show ?thesis
      by (simp add: valid_date_def previous_month_day_def MINYEAR_def MAXYEAR_def
          days_in_month_def)
  qed
qed

lemma previous_month_day_props:
  assumes v: "valid_date D" and nj: "\<not> (year D = 1 \<and> month D = 1)"
  shows "date_lt (previous_month_day D) D"
    and "month (previous_month_day D) \<noteq> month D"
    and "day (previous_month_day D) \<le> day D"
proof -
  from v have b: "1 \<le> year D" "1 \<le> month D" "month D \<le> 12"
    by (simp_all add: valid_date_def MINYEAR_def)
  show "date_lt (previous_month_day D) D"
    using b nj by (cases "1 < month D") (simp_all add: previous_month_day_def date_lt_def)
  show "month (previous_month_day D) \<noteq> month D"
    using b by (cases "1 < month D") (simp_all add: previous_month_day_def)
  show "day (previous_month_day D) \<le> day D"
    by (simp add: previous_month_day_def)
qed

lemma previous_month_day_latest:
  assumes v: "valid_date D" and x: "valid_date X" and lt: "date_lt X D"
    and mx: "month X \<noteq> month D" and dx: "day X \<le> day D"
  shows "date_le X (previous_month_day D)"
proof -
  from v have b: "1 \<le> year D" "1 \<le> month D" "month D \<le> 12"
    by (simp_all add: valid_date_def MINYEAR_def)
  from x have bx: "1 \<le> month X" "month X \<le> 12"
      "day X \<le> days_in_month (year X) (month X)"
    by (simp_all add: valid_date_def)
  from lt mx consider
      (year) "year X < year D" | (month) "year X = year D" "month X < month D"
    by (auto simp: date_lt_def)
  then show ?thesis
  proof cases
    case year
    show ?thesis
    proof (cases "1 < month D")
      case True
      with year show ?thesis by (simp add: previous_month_day_def date_le_def date_lt_def)
    next
      case False
      have "days_in_month (year X) 12 = 31" by (simp add: days_in_month_def)
      with False year bx dx show ?thesis
        by (cases "month X = 12")
          (auto simp: previous_month_day_def date_le_def date_lt_def min_def)
    qed
  next
    case month
    with bx have True: "1 < month D" by simp
    from month have "month X < month D - 1 \<or> month X = month D - 1" by arith
    with month bx dx True show ?thesis
      by (cases "month X = month D - 1")
        (auto simp: previous_month_day_def date_le_def date_lt_def min_def)
  qed
qed

lemma previous_month_steps_bounds:
  assumes v: "valid_date D"
  shows "0 < max (day D) (previous_month_length D)"
    and "max (day D) (previous_month_length D) \<le> 31"
proof -
  from v have "1 \<le> day D" "day D \<le> days_in_month (year D) (month D)"
    by (simp_all add: valid_date_def)
  moreover have "days_in_month (year D) (month D) \<le> 31" "previous_month_length D \<le> 31"
    using days_in_month_bounds [of "year D" "month D"]
      days_in_month_bounds [of "year D" "month D - 1"]
    by (simp_all add: previous_month_length_def)
  ultimately show "0 < max (day D) (previous_month_length D)"
    and "max (day D) (previous_month_length D) \<le> 31"
    by simp_all
qed

text \<open>
  C2, as the code has it.  For every date \<open>D\<close> from 0001-02-01 on, \<open>subtract_one_month D\<close>
  returns a date \<open>R\<close> that is reached from \<open>D\<close> by single days backward, lies strictly
  before \<open>D\<close>, has a month other than the month of \<open>D\<close> and a day of the month that does
  not exceed that of \<open>D\<close>, and is the latest such date: every date before \<open>D\<close> with these
  two properties is \<open>R\<close> or earlier.  In particular 2024-03-31 gives 2024-02-29 and
  2023-03-31 gives 2023-02-28.  (For the dates of January of the year 1, see
  \<open>subtract_one_month_january_of_year_1\<close>.)
\<close>

theorem subtract_one_month_latest:
  assumes v: "valid_date D" and nj: "\<not> (year D = 1 \<and> month D = 1)"
  shows "(\<exists>R. subtract_one_month D = Inr R \<and> valid_date R \<and> date_lt R D
            \<and> month R \<noteq> month D \<and> day R \<le> day D
            \<and> (\<exists>k. 0 < k \<and> sub_days k D = Inr R)
            \<and> (\<forall>X. valid_date X \<and> date_lt X D \<and> month X \<noteq> month D \<and> day X \<le> day D
                   \<longrightarrow> date_le X R))
       \<and> subtract_one_month \<lparr>year = 2024, month = 3, day = 31\<rparr>
           = Inr \<lparr>year = 2024, month = 2, day = 29\<rparr>
       \<and> subtract_one_month \<lparr>year = 2023, month = 3, day = 31\<rparr>
           = Inr \<lparr>year = 2023, month = 2, day = 28\<rparr>"
proof (intro conjI)
  let ?R = "previous_month_day D"
  have "subtract_one_month D = Inr ?R"
    by (rule subtract_one_month_closed_form [OF v nj])
  moreover have "valid_date ?R"
    by (rule previous_month_day_valid [OF v nj])
  moreover have "date_lt ?R D" "month ?R \<noteq> month D" "day ?R \<le> day D"
    by (rule previous_month_day_props [OF v nj])+
  moreover have "\<exists>k. 0 < k \<and> sub_days k D = Inr ?R"
    using subtract_one_month_steps [OF v nj] previous_month_steps_bounds(1) [OF v]
    by blast
  moreover have "\<forall>X. valid_date X \<and> date_lt X D \<and> month X \<noteq> month D \<and> day X \<le> day D
      \<longrightarrow> date_le X ?R"
    using previous_month_day_latest [OF v] by blast
  ultimately show "\<exists>R. subtract_one_month D = Inr R \<and> valid_date R \<and> date_lt R D
            \<and> month R \<noteq> month D \<and> day R \<le> day D
            \<and> (\<exists>k. 0 < k \<and> sub_days k D = Inr R)
            \<and> (\<forall>X. valid_date X \<and> date_lt X D \<and> month X \<noteq> month D \<and> day X \<le> day D
                   \<longrightarrow> date_le X R)"
    by blast
next
  show "subtract_one_month \<lparr>year = 2024, month = 3, day = 31\<rparr>
      = Inr \<lparr>year = 2024, month = 2, day = 29\<rparr>"
    by (subst subtract_one_month_closed_form)
      (simp_all add: valid_date_def MINYEAR_def MAXYEAR_def days_in_month_def
        previous_month_day_def is_leap_def)
next
  show "subtract_one_month \<lparr>year = 2023, month = 3, day = 31\<rparr>
      = Inr \<lparr>year = 2023, month = 2, day = 28\<rparr>"
    by (subst subtract_one_month_closed_form)
      (simp_all add: valid_date_def MINYEAR_def MAXYEAR_def days_in_month_def
        previous_month_day_def is_leap_def)
qed

theorem subtract_one_month_latest_witness:
  "valid_date \<lparr>year = 2021, month = 7, day = 31\<rparr>
   \<and> (\<exists>R. subtract_one_month \<lparr>year = 2021, month = 7, day = 31\<rparr> = Inr R
          \<and> date_lt R \<lparr>year = 2021, month = 7, day = 31\<rparr> \<and> month R \<noteq> 7 \<and> day R \<le> 31)"
proof -
  have v: "valid_date \<lparr>year = 2021, month = 7, day = 31\<rparr>"
    by (simp add: valid_date_def MINYEAR_def MAXYEAR_def days_in_month_def)
  have nj: "\<not> (year \<lparr>year = 2021, month = 7, day = 31\<rparr> = 1
              \<and> month \<lparr>year = 2021, month = 7, day = 31\<rparr> = 1)"
    by simp
  from subtract_one_month_latest [OF v nj] v show ?thesis
    by auto
qed

text \<open>
  The claim as stated, for every date, fails in January of the year 1: 0001-01-15 is a
  date, and the walk from it reaches 0001-01-01, whose predecessor does not exist, so that
  the function raises \<open>OverflowError\<close> and returns no date.
\<close>

theorem subtract_one_month_counterexample:
  "valid_date \<lparr>year = 1, month = 1, day = 15\<rparr>
   \<and> subtract_one_month \<lparr>year = 1, month = 1, day = 15\<rparr> = Inl OverflowError"
proof -
  have v: "valid_date \<lparr>year = 1, month = 1, day = 15\<rparr>"
    by (simp add: valid_date_def MINYEAR_def MAXYEAR_def days_in_month_def)
  from subtract_one_month_january_of_year_1 [OF v] v show ?thesis
    by simp
qed

text \<open>
  C10, as the code has it.  The loop is a total function of the model (\<open>walk_back\<close>, with
  its termination proof).  Every step makes the candidate the date one day earlier: a
  date before it, with the ordinal one less.  For every date \<open>D\<close> from 0001-02-01 on the
  loop ends after at most 31 steps of one day, well within the 62 of the claim, at a date
  whose month is not the month of \<open>D\<close> and whose day of the month does not exceed that
  of \<open>D\<close>.
\<close>

theorem subtract_one_month_terminates:
  assumes v: "valid_date D" and nj: "\<not> (year D = 1 \<and> month D = 1)"
  shows "(\<exists>k R. 0 < k \<and> k \<le> 31 \<and> sub_days k D = Inr R \<and> subtract_one_month D = Inr R
            \<and> month R \<noteq> month D \<and> day R \<le> day D)
       \<and> (\<forall>c c'. valid_date c \<and> sub_one_day c = Inr c'
             \<longrightarrow> valid_date c' \<and> date_lt c' c \<and> toordinal c' + 1 = toordinal c)"
proof -
  let ?R = "previous_month_day D" and ?k = "max (day D) (previous_month_length D)"
  have step: "\<forall>c c'. valid_date c \<and> sub_one_day c = Inr c'
      \<longrightarrow> valid_date c' \<and> date_lt c' c \<and> toordinal c' + 1 = toordinal c"
    using sub_one_day_decreases sub_one_day_toordinal by blast
  have "0 < ?k" "?k \<le> 31"
    by (rule previous_month_steps_bounds [OF v])+
  moreover have "sub_days ?k D = Inr ?R"
    by (rule subtract_one_month_steps [OF v nj])
  moreover have "subtract_one_month D = Inr ?R"
    by (rule subtract_one_month_closed_form [OF v nj])
  moreover have "month ?R \<noteq> month D" "day ?R \<le> day D"
    by (rule previous_month_day_props [OF v nj])+
  ultimately have "\<exists>k R. 0 < k \<and> k \<le> 31 \<and> sub_days k D = Inr R
      \<and> subtract_one_month D = Inr R \<and> month R \<noteq> month D \<and> day R \<le> day D"
    by blast
  with step show ?thesis by blast
qed

theorem subtract_one_month_terminates_witness:
  "valid_date \<lparr>year = 2022, month = 3, day = 1\<rparr>
   \<and> (\<exists>k R. 0 < k \<and> k \<le> 31 \<and> sub_days k \<lparr>year = 2022, month = 3, day = 1\<rparr> = Inr R
          \<and> subtract_one_month \<lparr>year = 2022, month = 3, day = 1\<rparr> = Inr R
          \<and> month R \<noteq> 3 \<and> day R \<le> 1)"
proof -
  have v: "valid_date \<lparr>year = 2022, month = 3, day = 1\<rparr>"
    by (simp add: valid_date_def MINYEAR_def MAXYEAR_def days_in_month_def)
  have nj: "\<not> (year \<lparr>year = 2022, month = 3, day = 1\<rparr> = 1
              \<and> month \<lparr>year = 2022, month = 3, day = 1\<rparr> = 1)"
    by simp
  from subtract_one_month_terminates [OF v nj] v show ?thesis
    by auto
qed

text \<open>
  The claim as stated, for every representable date, fails at \<open>date.min\<close>: the first
  subtraction of a day from 0001-01-01 raises \<open>OverflowError\<close>, and no date is reached.
\<close>

theorem subtract_one_month_min_date_counterexample:
  "valid_date \<lparr>year = 1, month = 1, day = 1\<rparr>
   \<and> subtract_one_month \<lparr>year = 1, month = 1, day = 1\<rparr> = Inl OverflowError"
  by (simp add: valid_date_def MINYEAR_def MAXYEAR_def days_in_month_def
      subtract_one_month_def sub_one_day_def)

section \<open>The insights view\<close>

text \<open>
  C6.  The response of \<open>insights_get\<close> holds the key \<open>learner_progress\<close> exactly if the
  enterprise has a learner-progress row, with the serialized row as its value, and the key
  \<open>learner_engagement\<close> exactly if it has a learner-engagement row; it holds no other key.
  A row that is absent is no error: the function returns a response in every case.  The
  status is 404 exactly if both rows are absent and 200 exactly if one of them exists.
  The serializers are assumed to give a row at least one field, as a serializer with
  declared fields does.
\<close>

theorem insights_get_payload:
  assumes p: "\<forall>row. progress_table eid = Some row \<longrightarrow> progress_serializer row \<noteq> []"
    and e: "\<forall>row. insights_table eid = Some row \<longrightarrow> insights_serializer row \<noteq> []"
  shows "map_of (fst (insights_get progress_serializer insights_serializer
                        progress_table insights_table eid)) ''learner_progress''
           = map_option progress_serializer (progress_table eid)
       \<and> map_of (fst (insights_get progress_serializer insights_serializer
                        progress_table insights_table eid)) ''learner_engagement''
           = map_option insights_serializer (insights_table eid)
       \<and> fst ` set (fst (insights_get progress_serializer insights_serializer
                        progress_table insights_table eid))
           \<subseteq> {''learner_progress'', ''learner_engagement''}
       \<and> (snd (insights_get progress_serializer insights_serializer
                        progress_table insights_table eid) = HTTP_404_NOT_FOUND
            \<longleftrightarrow> progress_table eid = None \<and> insights_table eid = None)
       \<and> (snd (insights_get progress_serializer insights_serializer
                        progress_table insights_table eid) = HTTP_200_OK
            \<longleftrightarrow> progress_table eid \<noteq> None \<or> insights_table eid \<noteq> None)"
  using p e
  by (cases "progress_table eid"; cases "insights_table eid")
    (simp_all add: insights_get_def HTTP_404_NOT_FOUND_def HTTP_200_OK_def)

theorem insights_get_payload_witness:
  "snd (insights_get (\<lambda>r. [(''enterprise_customer_uuid'', r)]) (\<lambda>r. [(''enterprise_customer_uuid'', r)])
          [''e1'' \<mapsto> ''e1''] Map.empty ''e1'') = HTTP_200_OK
   \<and> map_of (fst (insights_get (\<lambda>r. [(''enterprise_customer_uuid'', r)])
          (\<lambda>r. [(''enterprise_customer_uuid'', r)]) [''e1'' \<mapsto> ''e1''] Map.empty ''e1''))
        ''learner_engagement'' = None"
  using insights_get_payload [of "[''e1'' \<mapsto> ''e1'']" "''e1''"
      "\<lambda>r. [(''enterprise_customer_uuid'', r)]" Map.empty "\<lambda>r. [(''enterprise_customer_uuid'', r)]"]
  by simp

section \<open>Not found in the version 0 views\<close>

lemma ensure_data_exists_empty:
  "m \<noteq> [] \<Longrightarrow> ensure_data_exists path [] (Some m) lg = (Inl (NotFound m), lg @ [(ERROR, m)])"
  by (simp add: ensure_data_exists_def)

lemma no_enrollments_message_nonempty: "no_enrollments_message i p \<noteq> []"
  by (simp add: no_enrollments_message_def)

lemma v0_get_queryset_empty:
  assumes "v0_filter_queryset (filter (\<lambda>e. ee_enterprise_id e = v0_enterprise_id self) table) = []"
  shows "v0_get_queryset self table lg =
      (Inl (NotFound (no_enrollments_message (v0_enterprise_id self) (v0_full_path self))),
       lg @ [(ERROR, no_enrollments_message (v0_enterprise_id self) (v0_full_path self))])"
  using assms
  by (simp add: v0_get_queryset_def Let_def ensure_data_exists_empty
      no_enrollments_message_nonempty)

lemma v0_get_queryset_nonempty:
  assumes "v0_filter_queryset (filter (\<lambda>e. ee_enterprise_id e = v0_enterprise_id self) table) \<noteq> []"
  shows "v0_get_queryset self table lg =
      (Inr (v0_filter_queryset (filter (\<lambda>e. ee_enterprise_id e = v0_enterprise_id self) table)), lg)"
  using assms
  by (simp add: v0_get_queryset_def Let_def ensure_data_exists_def)

lemma no_enrollments_message_has_id: "sublist i (no_enrollments_message i p)"
  unfolding no_enrollments_message_def by (rule sublist_appendI)

lemma no_enrollments_message_has_path: "sublist p (no_enrollments_message i p)"
proof -
  have "no_enrollments_message i p =
      (''No course enrollments are associated with Enterprise '' @ i
         @ '' from endpoint '' @ [CHR 0x27]) @ p @ ([CHR 0x27] @ ''.'')"
    by (simp add: no_enrollments_message_def)
  then show ?thesis
    by (simp only: sublist_appendI)
qed

text \<open>
  C9.  If the enterprise has no enrollment with consent granted, then \<open>get_queryset\<close>, and
  with it the list and the overview of the version 0 views, raise \<open>NotFound\<close> with a
  message that contains the enterprise id and the path of the request; the message is
  logged as an error, and no empty result is returned.
\<close>

theorem v0_not_found:
  assumes "v0_filter_queryset (filter (\<lambda>e. ee_enterprise_id e = v0_enterprise_id self) table) = []"
  shows "\<exists>msg. v0_get_queryset self table lg = (Inl (NotFound msg), lg @ [(ERROR, msg)])
           \<and> v0_list self table lg = (Inl (NotFound msg), lg @ [(ERROR, msg)])
           \<and> v0_overview self today' table lg = (Inl (NotFound msg), lg @ [(ERROR, msg)])
           \<and> sublist (v0_enterprise_id self) msg
           \<and> sublist (v0_full_path self) msg"
proof -
  let ?msg = "no_enrollments_message (v0_enterprise_id self) (v0_full_path self)"
  have g: "v0_get_queryset self table lg = (Inl (NotFound ?msg), lg @ [(ERROR, ?msg)])"
    by (rule v0_get_queryset_empty [OF assms])
  then have "v0_list self table lg = (Inl (NotFound ?msg), lg @ [(ERROR, ?msg)])"
    and "v0_overview self today' table lg = (Inl (NotFound ?msg), lg @ [(ERROR, ?msg)])"
    by (simp_all add: v0_list_def v0_overview_def)
  with g show ?thesis
    using no_enrollments_message_has_id [of "v0_enterprise_id self" "v0_full_path self"]
      no_enrollments_message_has_path [of "v0_full_path self" "v0_enterprise_id self"]
    by blast
qed

theorem v0_not_found_witness:
  "\<exists>msg. v0_list \<lparr>v0_enterprise_id = ''e1'', v0_full_path = ''/enterprise/e1/enrollments/''\<rparr>
      [\<lparr>ee_enterprise_id = ''e1'', ee_enterprise_user_id = 1, ee_consent_granted = False,
         ee_has_passed = True, ee_last_activity_date = None\<rparr>] []
    = (Inl (NotFound msg), [(ERROR, msg)]) \<and> sublist ''e1'' msg"
proof -
  have h: "v0_filter_queryset (filter (\<lambda>e. ee_enterprise_id e
        = v0_enterprise_id \<lparr>v0_enterprise_id = ''e1'', v0_full_path = ''/enterprise/e1/enrollments/''\<rparr>)
      [\<lparr>ee_enterprise_id = ''e1'', ee_enterprise_user_id = 1, ee_consent_granted = False,
         ee_has_passed = True, ee_last_activity_date = None\<rparr>]) = []"
    by (simp add: v0_filter_queryset_def)
  from v0_not_found [OF h, of "[]"] show ?thesis
    by auto
qed

section \<open>The \<open>learner_activity\<close> filters\<close>

lemma if_given_subset:
  assumes "\<And>v q. set (f v q) \<subseteq> set q"
  shows "set (if_given p f q) \<subseteq> set q"
  using assms by (simp add: if_given_def split: option.splits)

lemma filter_by_offer_id_subset: "set (filter_by_offer_id q v) \<subseteq> set q"
  by (auto simp: filter_by_offer_id_def Let_def)

lemma if_given_start_date_subset:
  "if_given_raising p (filter_start_date mf) q = Inr r \<Longrightarrow> set r \<subseteq> set q"
  by (auto simp: if_given_raising_def filter_start_date_def split: option.splits if_splits)

lemma if_given_is_subsidy_subset:
  "if_given_raising p (filter_is_subsidy mf) q = Inr r \<Longrightarrow> set r \<subseteq> set q"
  by (auto simp: if_given_raising_def filter_is_subsidy_def split: option.splits if_splits)

lemma apply_filters_staged:
  assumes w: "sub_days 7 today = Inr w" and m: "subtract_one_month today = Inr m"
  shows "apply_filters mf qp now today qs =
     (case if_given_raising (qp_get qp ''search_start_date'') (filter_start_date mf)
             (search_stage qp (activity_stage mf (qp_get qp ''learner_activity'') now w m
                (if qp_get qp ''passed_date'' = Some ''last_week''
                 then filter_past_week_completions mf now qs else qs))) of
        Inl e \<Rightarrow> Inl e
      | Inr q7 \<Rightarrow> if_given_raising (qp_get qp ''is_subsidy'') (filter_is_subsidy mf)
                    (column_stage qp q7))"
  unfolding apply_filters_def w m sum.case Let_def activity_stage_def search_stage_def
    column_stage_def
  by (rule refl)

lemma search_stage_subset: "set (search_stage qp q) \<subseteq> set q"
  unfolding search_stage_def
  apply (rule order_trans [OF if_given_subset], simp)
  apply (rule order_trans [OF if_given_subset], simp)
  apply (rule if_given_subset, simp)
  done

lemma column_stage_subset: "set (column_stage qp q) \<subseteq> set q"
  unfolding column_stage_def
  apply (rule order_trans [OF if_given_subset], simp)
  apply (rule order_trans [OF if_given_subset], simp)
  apply (rule order_trans [OF if_given_subset], simp)
  apply (rule if_given_subset, rule filter_by_offer_id_subset)
  done

lemma apply_filters_stages:
  assumes r: "apply_filters mf qp now today qs = Inr rs"
  shows "\<exists>w m. sub_days 7 today = Inr w \<and> subtract_one_month today = Inr m
           \<and> set rs \<subseteq> set (activity_stage mf (qp_get qp ''learner_activity'') now w m
                (if qp_get qp ''passed_date'' = Some ''last_week''
                 then filter_past_week_completions mf now qs else qs))"
proof -
  from r obtain w where w: "sub_days 7 today = Inr w"
    by (cases "sub_days 7 today") (simp_all add: apply_filters_def)
  from r w obtain m where m: "subtract_one_month today = Inr m"
    by (cases "subtract_one_month today") (simp_all add: apply_filters_def)
  let ?q3 = "activity_stage mf (qp_get qp ''learner_activity'') now w m
                (if qp_get qp ''passed_date'' = Some ''last_week''
                 then filter_past_week_completions mf now qs else qs)"
  from r obtain q7 where
    q7: "if_given_raising (qp_get qp ''search_start_date'') (filter_start_date mf)
           (search_stage qp ?q3) = Inr q7"
    and last: "if_given_raising (qp_get qp ''is_subsidy'') (filter_is_subsidy mf)
           (column_stage qp q7) = Inr rs"
    unfolding apply_filters_staged [OF w m]
    by (auto split: sum.splits)
  have "set rs \<subseteq> set (column_stage qp q7)" using last by (rule if_given_is_subsidy_subset)
  also have "\<dots> \<subseteq> set q7" by (rule column_stage_subset)
  also have "\<dots> \<subseteq> set (search_stage qp ?q3)" using q7 by (rule if_given_start_date_subset)
  also have "\<dots> \<subseteq> set ?q3" by (rule search_stage_subset)
  finally show ?thesis using w m by blast
qed

lemma activity_stage_props:
  assumes p: "p = Some v" "v \<noteq> []" and e: "e \<in> set (activity_stage mf p now w m q1)"
  shows "e \<in> set q1 \<and> has_passed e = False
       \<and> (\<exists>d. course_end_date e = Some d \<and> date_le (date_to_python mf now) d)
       \<and> (v = ''active_past_week''
            \<longrightarrow> (\<exists>a. last_activity_date e = Some a \<and> date_le w a))
       \<and> (v = ''inactive_past_week''
            \<longrightarrow> (\<exists>a. last_activity_date e = Some a \<and> date_le a w))
       \<and> (v = ''inactive_past_month''
            \<longrightarrow> (\<exists>a. last_activity_date e = Some a \<and> date_le a m))"
proof -
  let ?q2 = "filter_active_enrollments mf now q1"
  have q2: "if_given p (\<lambda>v. filter_active_enrollments mf now) q1 = ?q2"
    using p by (simp add: if_given_def)
  have stage: "activity_stage mf p now w m q1 =
      (if v = ''active_past_week'' then filter_active_learners ?q2 w
       else if v = ''inactive_past_week'' then filter_inactive_learners ?q2 w
       else if v = ''inactive_past_month'' then filter_inactive_learners ?q2 m
       else ?q2)"
    unfolding activity_stage_def q2 Let_def using p by simp
  from e have in_q2: "e \<in> set ?q2"
    unfolding stage
    by (auto simp: filter_active_learners_def filter_inactive_learners_def split: if_splits)
  then have base: "e \<in> set q1" "has_passed e = False"
      "\<exists>d. course_end_date e = Some d \<and> date_le (date_to_python mf now) d"
    by (auto simp: filter_active_enrollments_def split: option.splits)
  have a: "v = ''active_past_week''
      \<longrightarrow> (\<exists>a. last_activity_date e = Some a \<and> date_le w a)"
    using e unfolding stage
    by (auto simp: filter_active_learners_def split: option.splits)
  have b: "v = ''inactive_past_week''
      \<longrightarrow> (\<exists>a. last_activity_date e = Some a \<and> date_le a w)"
    using e unfolding stage
    by (auto simp: filter_inactive_learners_def split: option.splits)
  have c: "v = ''inactive_past_month''
      \<longrightarrow> (\<exists>a. last_activity_date e = Some a \<and> date_le a m)"
    using e unfolding stage
    by (auto simp: filter_inactive_learners_def split: option.splits)
  from base a b c show ?thesis by blast
qed

lemma sub_days_7_returns:
  assumes v: "valid_date D" and nj: "\<not> (year D = 1 \<and> month D = 1)"
  shows "\<exists>w. sub_days 7 D = Inr w"
proof -
  define y m c where "y = year D" and "m = month D" and "c = day D"
  have D: "D = \<lparr>year = y, month = m, day = c\<rparr>"
    by (simp add: y_def m_def c_def)
  from v have b: "1 \<le> y" "1 \<le> m" "1 \<le> c"
    by (simp_all add: valid_date_def MINYEAR_def y_def m_def c_def)
  from nj have nj': "\<not> (y = 1 \<and> m = 1)" by (simp add: y_def m_def)
  show ?thesis
  proof (cases "7 < c")
    case True
    then show ?thesis using sub_days_within_month [of 7 c y m] by (simp add: D)
  next
    case False
    define py pm L where "py = (if 1 < m then y else y - 1)"
      and "pm = (if 1 < m then m - 1 else 12)"
      and "L = (if 1 < m then days_in_month y (m - 1) else 31)"
    have L: "28 \<le> L" using days_in_month_bounds [of y "m - 1"] by (simp add: L_def)
    have one: "sub_days c D = Inr \<lparr>year = py, month = pm, day = L\<rparr>"
      using sub_days_to_previous_month [OF b nj'] by (simp add: D py_def pm_def L_def)
    have "7 - c < L" using L by simp
    then have two: "sub_days (7 - c) \<lparr>year = py, month = pm, day = L\<rparr>
        = Inr \<lparr>year = py, month = pm, day = L - (7 - c)\<rparr>"
      by (rule sub_days_within_month)
    have "sub_days (c + (7 - c)) D = Inr \<lparr>year = py, month = pm, day = L - (7 - c)\<rparr>"
      by (simp only: sub_days_add one two sum.case)
    moreover have "c + (7 - c) = 7" using False by simp
    ultimately show ?thesis by (simp only:) blast
  qed
qed

text \<open>
  \<open>apply_filters\<close> returns a result for every day from 0001-02-01 on, if the values given
  for \<open>search_start_date\<close> and \<open>is_subsidy\<close> are values of their columns.
\<close>

lemma apply_filters_returns:
  assumes v: "valid_date today" and nj: "\<not> (year today = 1 \<and> month today = 1)"
    and sd: "\<forall>v. qp_get qp ''search_start_date'' = Some v \<longrightarrow> start_date_to_python mf v \<noteq> None"
    and su: "\<forall>v. qp_get qp ''is_subsidy'' = Some v \<longrightarrow> is_subsidy_to_python mf v \<noteq> None"
  shows "\<exists>rs. apply_filters mf qp now today qs = Inr rs"
proof -
  from sub_days_7_returns [OF v nj] obtain w where w: "sub_days 7 today = Inr w" ..
  have m: "subtract_one_month today = Inr (previous_month_day today)"
    by (rule subtract_one_month_closed_form [OF v nj])
  have a: "\<exists>q7. if_given_raising (qp_get qp ''search_start_date'') (filter_start_date mf) q
      = Inr q7" for q
    using sd by (auto simp: if_given_raising_def filter_start_date_def split: option.splits)
  have b: "\<exists>rs. if_given_raising (qp_get qp ''is_subsidy'') (filter_is_subsidy mf) q
      = Inr rs" for q
    using su by (auto simp: if_given_raising_def filter_is_subsidy_def split: option.splits)
  show ?thesis
    unfolding apply_filters_staged [OF w m]
    using a b by (metis sum.case(2))
qed

text \<open>
  C8, as the code has it.  If \<open>learner_activity\<close> is given with a non-empty value, every
  enrollment of the result of \<open>apply_filters\<close> is one of the given set that is not passed
  and whose course ends on the calendar date of \<open>now\<close> or later (\<open>course_end_date\<close> is
  a date, and a course that ends today is kept all day); if the value is
  \<open>active_past_week\<close>, its last
  activity is on the day seven days before today or later; if \<open>inactive_past_week\<close>, on
  that day or earlier; if \<open>inactive_past_month\<close>, on the day \<open>subtract_one_month\<close> gives
  for today or earlier.
\<close>

theorem apply_filters_learner_activity:
  assumes la: "qp_get qp ''learner_activity'' = Some v" "v \<noteq> []"
    and r: "apply_filters mf qp now today qs = Inr rs"
  shows "\<exists>past_week_date past_month_date.
           sub_days 7 today = Inr past_week_date
         \<and> subtract_one_month today = Inr past_month_date
         \<and> (\<forall>e \<in> set rs.
               e \<in> set qs \<and> has_passed e = False
             \<and> (\<exists>d. course_end_date e = Some d \<and> date_le (date_to_python mf now) d)
             \<and> (v = ''active_past_week''
                  \<longrightarrow> (\<exists>a. last_activity_date e = Some a \<and> date_le past_week_date a))
             \<and> (v = ''inactive_past_week''
                  \<longrightarrow> (\<exists>a. last_activity_date e = Some a \<and> date_le a past_week_date))
             \<and> (v = ''inactive_past_month''
                  \<longrightarrow> (\<exists>a. last_activity_date e = Some a \<and> date_le a past_month_date)))"
proof -
  let ?q1 = "if qp_get qp ''passed_date'' = Some ''last_week''
             then filter_past_week_completions mf now qs else qs"
  from apply_filters_stages [OF r] obtain w m where
    w: "sub_days 7 today = Inr w" and m: "subtract_one_month today = Inr m"
    and sub: "set rs \<subseteq> set (activity_stage mf (qp_get qp ''learner_activity'') now w m ?q1)"
    by blast
  have q1: "set ?q1 \<subseteq> set qs"
    by (simp add: filter_past_week_completions_def)
  have "e \<in> set qs \<and> has_passed e = False
             \<and> (\<exists>d. course_end_date e = Some d \<and> date_le (date_to_python mf now) d)
             \<and> (v = ''active_past_week''
                  \<longrightarrow> (\<exists>a. last_activity_date e = Some a \<and> date_le w a))
             \<and> (v = ''inactive_past_week''
                  \<longrightarrow> (\<exists>a. last_activity_date e = Some a \<and> date_le a w))
             \<and> (v = ''inactive_past_month''
                  \<longrightarrow> (\<exists>a. last_activity_date e = Some a \<and> date_le a m))"
    if e: "e \<in> set rs" for e
  proof -
    from e sub have "e \<in> set (activity_stage mf (qp_get qp ''learner_activity'') now w m ?q1)"
      by blast
    from activity_stage_props [OF la this] q1 show ?thesis by blast
  qed
  with w m show ?thesis by blast
qed

theorem apply_filters_learner_activity_witness:
  "apply_filters ex_fields [(''learner_activity'', ''inactive_past_month'')] 43200000000
       \<lparr>year = 2024, month = 3, day = 31\<rparr> [ex_enrollment] = Inr [ex_enrollment]
   \<and> (\<exists>past_month_date.
         subtract_one_month \<lparr>year = 2024, month = 3, day = 31\<rparr> = Inr past_month_date
       \<and> (\<exists>a. last_activity_date ex_enrollment = Some a \<and> date_le a past_month_date))"
proof -
  have la: "qp_get [(''learner_activity'', ''inactive_past_month'')] ''learner_activity''
      = Some ''inactive_past_month''" "''inactive_past_month'' \<noteq> []"
    by (simp_all add: qp_get_def qp_getlist_def)
  have r: "apply_filters ex_fields [(''learner_activity'', ''inactive_past_month'')] 43200000000
         \<lparr>year = 2024, month = 3, day = 31\<rparr> [ex_enrollment] = Inr [ex_enrollment]"
    by code_simp
  from apply_filters_learner_activity [OF la r] r show ?thesis
    by auto
qed

text \<open>
  The claim as stated, for a \<open>learner_activity\<close> that is present, fails for the query
  string \<open>?learner_activity=\<close>: the parameter is present with the empty value, which the
  test \<open>if learner_activity_param:\<close> takes for absent, and a passed enrollment stays in
  the result.
\<close>

theorem apply_filters_learner_activity_counterexample:
  "qp_get [(''learner_activity'', [])] ''learner_activity'' = Some []
   \<and> apply_filters ex_fields [(''learner_activity'', [])] 100
         \<lparr>year = 2024, month = 3, day = 31\<rparr> [ex_enrollment\<lparr>has_passed := True\<rparr>]
       = Inr [ex_enrollment\<lparr>has_passed := True\<rparr>]
   \<and> has_passed (ex_enrollment\<lparr>has_passed := True\<rparr>) = True"
proof -
  have "apply_filters ex_fields [(''learner_activity'', [])] 100
         \<lparr>year = 2024, month = 3, day = 31\<rparr> [ex_enrollment\<lparr>has_passed := True\<rparr>]
       = Inr [ex_enrollment\<lparr>has_passed := True\<rparr>]"
    by code_simp
  then show ?thesis
    by (simp add: qp_get_def qp_getlist_def)
qed

section \<open>The cache of the enrollment list\<close>

lemma get_queryset_hit:
  assumes nf: "\<not> swagger_fake_view self"
    and hit: "get_cached_response (cache w) (clock_now ev) (enterprise_learner_key self) = Some val"
  shows "get_queryset self ev w = (Inr val, w)"
  using nf hit by (simp add: get_queryset_def enterprise_learner_key_def Let_def)

lemma get_queryset_miss:
  assumes nf: "\<not> swagger_fake_view self"
    and miss: "get_cached_response (cache w) (clock_now ev) (enterprise_learner_key self) = None"
    and fs: "apply_filters (model ev) (query_params self) (clock_now ev) (clock_today ev)
               (enterprise_enrollments self ev) = Inr fs"
  shows "fst (get_queryset self ev w) = Inr fs"
    and "cache (snd (get_queryset self ev w)) =
           (cache w)(enterprise_learner_key self \<mapsto>
              (fs, clock_now ev + DEFAULT_LEARNER_CACHE_TIMEOUT * 1000000))"
  using nf miss fs
  by (simp_all add: get_queryset_def enterprise_learner_key_def enterprise_enrollments_def
      Let_def set_all_tiers_def)

lemma get_queryset_miss_raises:
  assumes nf: "\<not> swagger_fake_view self"
    and miss: "get_cached_response (cache w) (clock_now ev) (enterprise_learner_key self) = None"
    and fs: "apply_filters (model ev) (query_params self) (clock_now ev) (clock_today ev)
               (enterprise_enrollments self ev) = Inl err"
  shows "fst (get_queryset self ev w) = Inl err"
    and "cache (snd (get_queryset self ev w)) = cache w"
  using nf miss fs
  by (simp_all add: get_queryset_def enterprise_learner_key_def enterprise_enrollments_def
      Let_def)

text \<open>
  C4.  For a view that serves a request (not the fake view of the schema generation):
  if the cache holds an unexpired value under the key of (\<open>enterprise-learner\<close>, enterprise
  id), \<open>get_queryset\<close> returns it and changes nothing; otherwise it returns the filtered
  enrollments of the enterprise and stores them under that key, to expire 600 seconds
  later, and every request for the same enterprise before that instant, whatever its
  query parameters and the tables then, returns the same set from the cache.  The keys of
  two calls are equal only if the resources and the enterprises are.
\<close>

theorem get_queryset_cache_contract:
  assumes nf: "\<not> swagger_fake_view self"
  shows "(\<forall>val. get_cached_response (cache w) (clock_now ev) (enterprise_learner_key self)
              = Some val
            \<longrightarrow> get_queryset self ev w = (Inr val, w))
       \<and> (\<forall>fs. get_cached_response (cache w) (clock_now ev) (enterprise_learner_key self) = None
              \<and> apply_filters (model ev) (query_params self) (clock_now ev) (clock_today ev)
                   (enterprise_enrollments self ev) = Inr fs
            \<longrightarrow> fst (get_queryset self ev w) = Inr fs
              \<and> cache (snd (get_queryset self ev w)) =
                  (cache w)(enterprise_learner_key self \<mapsto> (fs, clock_now ev + 600 * 1000000))
              \<and> (\<forall>self' ev'. \<not> swagger_fake_view self'
                     \<and> enterprise_id self' = enterprise_id self
                     \<and> clock_now ev' < clock_now ev + 600 * 1000000
                   \<longrightarrow> get_queryset self' ev' (snd (get_queryset self ev w))
                        = (Inr fs, snd (get_queryset self ev w))))
       \<and> DEFAULT_LEARNER_CACHE_TIMEOUT = 600
       \<and> (\<forall>resource enterprise resource' enterprise'.
             get_cache_key resource enterprise = get_cache_key resource' enterprise'
             \<longleftrightarrow> resource = resource' \<and> enterprise = enterprise')"
proof -
  have hit: "\<forall>val. get_cached_response (cache w) (clock_now ev) (enterprise_learner_key self)
              = Some val
            \<longrightarrow> get_queryset self ev w = (Inr val, w)"
    using get_queryset_hit [OF nf] by blast
  have miss: "fst (get_queryset self ev w) = Inr fs
              \<and> cache (snd (get_queryset self ev w)) =
                  (cache w)(enterprise_learner_key self \<mapsto> (fs, clock_now ev + 600 * 1000000))
              \<and> (\<forall>self' ev'. \<not> swagger_fake_view self'
                     \<and> enterprise_id self' = enterprise_id self
                     \<and> clock_now ev' < clock_now ev + 600 * 1000000
                   \<longrightarrow> get_queryset self' ev' (snd (get_queryset self ev w))
                        = (Inr fs, snd (get_queryset self ev w)))"
    if a: "get_cached_response (cache w) (clock_now ev) (enterprise_learner_key self) = None
      \<and> apply_filters (model ev) (query_params self) (clock_now ev) (clock_today ev)
           (enterprise_enrollments self ev) = Inr fs" for fs
  proof -
    from a have none: "get_cached_response (cache w) (clock_now ev)
          (enterprise_learner_key self) = None"
      and fs: "apply_filters (model ev) (query_params self) (clock_now ev) (clock_today ev)
           (enterprise_enrollments self ev) = Inr fs"
      by simp_all
    have r: "fst (get_queryset self ev w) = Inr fs"
      by (rule get_queryset_miss(1) [OF nf none fs])
    have c: "cache (snd (get_queryset self ev w)) =
        (cache w)(enterprise_learner_key self \<mapsto> (fs, clock_now ev + 600 * 1000000))"
      using get_queryset_miss(2) [OF nf none fs]
      by (simp add: DEFAULT_LEARNER_CACHE_TIMEOUT_def)
    have again: "get_queryset self' ev' (snd (get_queryset self ev w))
        = (Inr fs, snd (get_queryset self ev w))"
      if b: "\<not> swagger_fake_view self' \<and> enterprise_id self' = enterprise_id self
        \<and> clock_now ev' < clock_now ev + 600 * 1000000" for self' :: view and ev' :: env
    proof -
      from b have k: "enterprise_learner_key self' = enterprise_learner_key self"
        by (simp add: enterprise_learner_key_def)
      have "get_cached_response (cache (snd (get_queryset self ev w))) (clock_now ev')
          (enterprise_learner_key self') = Some fs"
        unfolding c k using b by (simp add: get_cached_response_def)
      with b show ?thesis
        by (intro get_queryset_hit) simp_all
    qed
    from r c again show ?thesis by blast
  qed
  have ttl: "DEFAULT_LEARNER_CACHE_TIMEOUT = 600"
    by (simp add: DEFAULT_LEARNER_CACHE_TIMEOUT_def)
  have keys: "\<forall>resource enterprise resource' enterprise'.
             get_cache_key resource enterprise = get_cache_key resource' enterprise'
             \<longleftrightarrow> resource = resource' \<and> enterprise = enterprise'"
    by (simp add: get_cache_key_def)
  from hit miss ttl keys show ?thesis by blast
qed

theorem get_queryset_cache_contract_witness:
  "fst (get_queryset ex_view ex_env ex_world) = Inr [ex_enrollment]
   \<and> get_queryset (ex_view\<lparr>query_params := [(''search'', ''nobody'')]\<rparr>)
        (ex_env\<lparr>clock_now := 599999999, enrollment_table := []\<rparr>)
        (snd (get_queryset ex_view ex_env ex_world))
      = (Inr [ex_enrollment], snd (get_queryset ex_view ex_env ex_world))"
proof -
  have nf: "\<not> swagger_fake_view ex_view"
    by (simp add: ex_view_def)
  have miss: "get_cached_response (cache ex_world) (clock_now ex_env)
      (enterprise_learner_key ex_view) = None"
    by (simp add: get_cached_response_def ex_world_def)
  have fs: "apply_filters (model ex_env) (query_params ex_view) (clock_now ex_env)
      (clock_today ex_env) (enterprise_enrollments ex_view ex_env) = Inr [ex_enrollment]"
    by code_simp
  from get_queryset_cache_contract [OF nf, of ex_world ex_env] miss fs
  have 1: "fst (get_queryset ex_view ex_env ex_world) = Inr [ex_enrollment]"
    and 2: "\<forall>self' ev'. \<not> swagger_fake_view self'
                     \<and> enterprise_id self' = enterprise_id ex_view
                     \<and> clock_now ev' < clock_now ex_env + 600 * 1000000
                   \<longrightarrow> get_queryset self' ev' (snd (get_queryset ex_view ex_env ex_world))
                        = (Inr [ex_enrollment], snd (get_queryset ex_view ex_env ex_world))"
    by blast+
  have "get_queryset (ex_view\<lparr>query_params := [(''search'', ''nobody'')]\<rparr>)
        (ex_env\<lparr>clock_now := 599999999, enrollment_table := []\<rparr>)
        (snd (get_queryset ex_view ex_env ex_world))
      = (Inr [ex_enrollment], snd (get_queryset ex_view ex_env ex_world))"
    by (rule 2 [rule_format]) (simp add: ex_view_def ex_env_def)
  with 1 show ?thesis by simp
qed

section \<open>The learner listing and the completed courses\<close>

lemma set_join_filter:
  "set (join_filter cond es q) =
     {l \<in> set q. \<exists>e \<in> set es. enterprise_user_id e = l_enterprise_user_id l \<and> cond e}"
  by (auto simp: join_filter_def related_enrollments_def)

lemma join_filter_subset: "set (join_filter cond es q) \<subseteq> set q"
  by (auto simp: set_join_filter)

lemma learner_get_queryset_rows:
  "\<exists>q1 q3. set q1 \<subseteq> set learners
      \<and> set q3 \<subseteq> set (active_courses_stage mf qp now es q1)
      \<and> set (learner_get_queryset mf qp now learners es) = annotate_row qp es ` set q3"
proof -
  define q1 where "q1 = (if qp_get qp ''has_enrollments'' = Some ''true''
                         then join_filter (\<lambda>e. True) es learners
                         else if qp_get qp ''has_enrollments'' = Some ''false''
                         then isnull_filter es learners
                         else learners)"
  define q2 where "q2 = active_courses_stage mf qp now es q1"
  define q3 where "q3 = (if qp_get qp ''all_enrollments_passed'' = Some ''true''
                then join_filter (\<lambda>e. has_passed e = True) es q2
                else if qp_get qp ''all_enrollments_passed'' = Some ''false''
                then join_filter (\<lambda>e. has_passed e = False) es q2
                else q2)"
  have eq: "learner_get_queryset mf qp now learners es =
      (if qp_get qp ''has_enrollments'' = Some ''true''
       then remdups (map (annotate_row qp es) q3) else map (annotate_row qp es) q3)"
    unfolding learner_get_queryset_def Let_def q3_def q2_def q1_def active_courses_stage_def
      annotate_row_def
    by (rule refl)
  have 1: "set q1 \<subseteq> set learners"
    using join_filter_subset [of "\<lambda>e. True" es learners]
    by (auto simp: q1_def isnull_filter_def)
  have 3: "set q3 \<subseteq> set q2"
    using join_filter_subset [of _ es q2] by (auto simp: q3_def)
  have "set (learner_get_queryset mf qp now learners es) = annotate_row qp es ` set q3"
    unfolding eq by simp
  with 1 3 show ?thesis unfolding q2_def by blast
qed

lemma learner_get_queryset_annotated:
  assumes "r \<in> set (learner_get_queryset mf qp now learners es)"
  shows "r = annotate_row qp es (row_learner r)" and "row_learner r \<in> set learners"
proof -
  from learner_get_queryset_rows [of learners mf qp now es] assms
  obtain q1 q3 l where "set q1 \<subseteq> set learners"
    "set q3 \<subseteq> set (active_courses_stage mf qp now es q1)" "l \<in> set q3" "r = annotate_row qp es l"
    by blast
  moreover have "set (active_courses_stage mf qp now es q1) \<subseteq> set q1"
    using join_filter_subset [of _ es q1] by (auto simp: active_courses_stage_def)
  ultimately show "r = annotate_row qp es (row_learner r)" and "row_learner r \<in> set learners"
    by (auto simp: annotate_row_def)
qed

lemma count_pk_subquery_card:
  "Coalesce (count_pk_subquery cond es l) 0 =
     card (enrollment_id ` {e \<in> set es. enterprise_user_id e = l_enterprise_user_id l \<and> cond e})"
proof -
  let ?rows = "filter (\<lambda>e. enterprise_user_id e = l_enterprise_user_id l \<and> cond e) es"
  have s: "set ?rows = {e \<in> set es. enterprise_user_id e = l_enterprise_user_id l \<and> cond e}"
    by auto
  have "length (remdups (map enrollment_id ?rows)) = card (enrollment_id ` set ?rows)"
    by (simp add: length_remdups_card_conv)
  then show ?thesis
    unfolding s [symmetric]
    by (cases "?rows = []") (simp_all add: count_pk_subquery_def Coalesce_def Let_def)
qed












text \<open>
  C7.  If \<open>extra_fields\<close> contains \<open>enrollment_count\<close>, every learner of the listing is
  annotated with the number of distinct enrollments of that learner with consent granted;
  if it contains \<open>course_completion_count\<close>, with the number of those that are passed as
  well.  Each number is a function of the learner's own enrollments, and it is \<open>0\<close>, not
  absent, if there is none.
\<close>

theorem learner_annotations:
  "set (learner_list eid mf qp now learners es) \<subseteq> set (learner_get_queryset mf qp now learners es)
   \<and> (\<forall>r \<in> set (learner_get_queryset mf qp now learners es).
        (''enrollment_count'' \<in> set (qp_getlist qp ''extra_fields'')
           \<longrightarrow> enrollment_count r =
                 Some (card (enrollment_id `
                   {e \<in> set es. enterprise_user_id e = l_enterprise_user_id (row_learner r)
                      \<and> is_consent_granted e}))
             \<and> ({e \<in> set es. enterprise_user_id e = l_enterprise_user_id (row_learner r)
                      \<and> is_consent_granted e} = {} \<longrightarrow> enrollment_count r = Some 0))
      \<and> (''course_completion_count'' \<in> set (qp_getlist qp ''extra_fields'')
           \<longrightarrow> course_completion_count r =
                 Some (card (enrollment_id `
                   {e \<in> set es. enterprise_user_id e = l_enterprise_user_id (row_learner r)
                      \<and> has_passed e \<and> is_consent_granted e}))
             \<and> ({e \<in> set es. enterprise_user_id e = l_enterprise_user_id (row_learner r)
                      \<and> has_passed e \<and> is_consent_granted e} = {}
                  \<longrightarrow> course_completion_count r = Some 0)))"
proof -
  have sub: "set (learner_list eid mf qp now learners es)
      \<subseteq> set (learner_get_queryset mf qp now learners es)"
    by (auto simp: learner_list_def)
  have ann: "(''enrollment_count'' \<in> set (qp_getlist qp ''extra_fields'')
           \<longrightarrow> enrollment_count r =
                 Some (card (enrollment_id `
                   {e \<in> set es. enterprise_user_id e = l_enterprise_user_id (row_learner r)
                      \<and> is_consent_granted e}))
             \<and> ({e \<in> set es. enterprise_user_id e = l_enterprise_user_id (row_learner r)
                      \<and> is_consent_granted e} = {} \<longrightarrow> enrollment_count r = Some 0))
      \<and> (''course_completion_count'' \<in> set (qp_getlist qp ''extra_fields'')
           \<longrightarrow> course_completion_count r =
                 Some (card (enrollment_id `
                   {e \<in> set es. enterprise_user_id e = l_enterprise_user_id (row_learner r)
                      \<and> has_passed e \<and> is_consent_granted e}))
             \<and> ({e \<in> set es. enterprise_user_id e = l_enterprise_user_id (row_learner r)
                      \<and> has_passed e \<and> is_consent_granted e} = {}
                  \<longrightarrow> course_completion_count r = Some 0))"
    if r: "r \<in> set (learner_get_queryset mf qp now learners es)" for r
  proof -
    let ?l = "row_learner r"
    have eq: "r = annotate_row qp es ?l"
      by (rule learner_get_queryset_annotated(1) [OF r])
    have ec: "''enrollment_count'' \<in> set (qp_getlist qp ''extra_fields'')
        \<Longrightarrow> enrollment_count r =
              Some (card (enrollment_id `
                {e \<in> set es. enterprise_user_id e = l_enterprise_user_id ?l
                   \<and> is_consent_granted e}))"
      using count_pk_subquery_card [of "\<lambda>e. is_consent_granted e = True" es ?l]
      by (subst eq) (simp add: annotate_row_def)
    have cc: "''course_completion_count'' \<in> set (qp_getlist qp ''extra_fields'')
        \<Longrightarrow> course_completion_count r =
              Some (card (enrollment_id `
                {e \<in> set es. enterprise_user_id e = l_enterprise_user_id ?l
                   \<and> has_passed e \<and> is_consent_granted e}))"
      using count_pk_subquery_card
        [of "\<lambda>e. has_passed e = True \<and> is_consent_granted e = True" es ?l]
      by (subst eq) (simp add: annotate_row_def)
    from ec cc show ?thesis by auto
  qed
  from sub ann show ?thesis by blast
qed

theorem learner_annotations_witness:
  "\<lparr>row_learner = ex_learner, enrollment_count = Some 1, course_completion_count = Some 0\<rparr>
     \<in> set (learner_get_queryset ex_fields
         [(''extra_fields'', ''enrollment_count''), (''extra_fields'', ''course_completion_count'')]
         100 [ex_learner] [ex_enrollment, ex_no_consent])
   \<and> card (enrollment_id `
        {e \<in> set [ex_enrollment, ex_no_consent].
           enterprise_user_id e = l_enterprise_user_id ex_learner
           \<and> has_passed e \<and> is_consent_granted e}) = 0"
proof -
  let ?qp = "[(''extra_fields'', ''enrollment_count''),
              (''extra_fields'', ''course_completion_count'')]"
  let ?r = "\<lparr>row_learner = ex_learner, enrollment_count = Some 1,
              course_completion_count = Some 0\<rparr>"
  have rows: "learner_get_queryset ex_fields ?qp 100 [ex_learner] [ex_enrollment, ex_no_consent] = [?r]"
    by code_simp
  then have mem: "?r \<in> set (learner_get_queryset ex_fields ?qp 100 [ex_learner]
      [ex_enrollment, ex_no_consent])"
    by simp
  have xf: "''course_completion_count'' \<in> set (qp_getlist ?qp ''extra_fields'')"
    by (simp add: qp_getlist_def)
  from learner_annotations [of "''e1''" ex_fields ?qp 100 "[ex_learner]" "[ex_enrollment, ex_no_consent]"]
    mem xf
  have "course_completion_count ?r =
      Some (card (enrollment_id `
        {e \<in> set [ex_enrollment, ex_no_consent].
           enterprise_user_id e = l_enterprise_user_id (row_learner ?r)
           \<and> has_passed e \<and> is_consent_granted e}))"
    by blast
  with mem show ?thesis by simp
qed




section \<open>The \<open>offer_id\<close> filter\<close>

text \<open>
  A value that \<open>UUID\<close> rejects is compared as it is given; one that leaves other than 32
  characters, once the prefixes, braces and hyphens are removed, is rejected.
\<close>

lemma filter_by_offer_id_not_uuid:
  "UUID v 4 = Inl err \<Longrightarrow> filter_by_offer_id q v = filter (\<lambda>e. offer_id e = Some v) q"
  by (simp add: filter_by_offer_id_def)

lemma UUID_wrong_length:
  "length (str_replace ''-'' [] (str_strip ''{}''
      (str_replace ''uuid:'' [] (str_replace ''urn:'' [] v)))) \<noteq> 32
   \<Longrightarrow> UUID v n = Inl ValueError"
  by (simp add: UUID_def Let_def)

text \<open>
  The two examples of C3 hold: the hyphenated version 4 identifier, in either case of the
  letters, finds the offer stored without hyphens in lower case, and \<open>42\<close> finds the
  offer \<open>42\<close>.
\<close>

lemma filter_by_offer_id_examples:
  "filter_by_offer_id [ex_offer_v4, ex_offer_v1, ex_offer_42]
       ''123e4567-e89b-42d3-a456-426614174000'' = [ex_offer_v4]
   \<and> filter_by_offer_id [ex_offer_v4, ex_offer_v1, ex_offer_42]
       ''123E4567-E89B-42D3-A456-426614174000'' = [ex_offer_v4]
   \<and> filter_by_offer_id [ex_offer_v4, ex_offer_v1, ex_offer_42] ''42'' = [ex_offer_42]"
  by code_simp

text \<open>
  C3 at an identifier that is a UUID but not of version 4.  \<open>UUID(offer_id, version=4)\<close>
  does not test the version: it overwrites the version nibble and the variant bits.  The
  query for the version 1 identifier \<open>123e4567-e89b-12d3-a456-426614174000\<close> is therefore
  compared neither as given nor as its own digits without hyphens, but as the digits of
  the version 4 identifier \<open>123e4567-e89b-42d3-a456-426614174000\<close>: it misses the offer
  stored under its own digits and returns the offer of the other identifier.
\<close>

theorem filter_by_offer_id_sets_version:
  "UUID ''123e4567-e89b-12d3-a456-426614174000'' 4
     = UUID ''123e4567-e89b-42d3-a456-426614174000'' 4
   \<and> filter_by_offer_id [ex_offer_v4, ex_offer_v1, ex_offer_42]
       ''123e4567-e89b-12d3-a456-426614174000'' = [ex_offer_v4]
   \<and> offer_id ex_offer_v4 = Some ''123e4567e89b42d3a456426614174000''
   \<and> offer_id ex_offer_v1 = Some ''123e4567e89b12d3a456426614174000''"
  by code_simp

end
